theory Spec2Isabelle
  imports Complex_Main
begin

section \<open>The glowing circle indicator: a model of the module and of the DOM it touches\<close>

text \<open>
  The module (the colour-aware variant of the source) keeps two module-level variables,
  \<^verbatim>\<open>circle\<close> and \<^verbatim>\<open>styleSheet\<close>, and exports \<^verbatim>\<open>showCircle\<close>,
  \<^verbatim>\<open>hideCircle\<close> and \<^verbatim>\<open>destroyCircle\<close>. Every function of the source is a
  state transformer here. The state holds the two variables and the part of the browser
  the code reads or writes: the objects it creates (a store indexed by object identity),
  the children of \<^verbatim>\<open>document.body\<close> and \<^verbatim>\<open>document.head\<close>, the listener list of
  \<^verbatim>\<open>window\<close>, and the answer of \<^verbatim>\<open>getBoundingClientRect\<close> for every element.

  The source has no \<^verbatim>\<open>throw\<close>; each use of \<^verbatim>\<open>circle\<close> or \<^verbatim>\<open>styleSheet\<close>
  stands under a presence check or directly after the assignment, so the transformers
  have no error value. An early \<^verbatim>\<open>return\<close> is a branch that returns the state as it is.

  What the model takes from the browser, as the types of the source do: the document is
  live (\<^verbatim>\<open>document.head\<close> and \<^verbatim>\<open>document.body\<close> exist), a target is an element, an
  assignment to a style property stores the value assigned, and the layout does not move
  while one function of the module runs. Other scripts of the page are not modelled: the
  state changes only by the three exported functions, by events on \<^verbatim>\<open>window\<close> and by
  changes of the layout. The second file of the repository is the same module without
  the colour parameter (its indicator is always blue); what follows is about the file
  with the parameter.
\<close>

subsection \<open>Data\<close>

text \<open>Object identity: elements and function objects are numbered as they are created.\<close>

type_synonym ref = nat

text \<open>The properties of \<^verbatim>\<open>element.style\<close> that the source assigns.\<close>

datatype style_property =
  Width | Height | Background | BorderRadius | Position | Transform | Display
  | AlignItems | JustifyContent | BoxShadow | Animation | PointerEvents | ZIndex
  | Top | Left_prop | FontSize | Color

text \<open>
  A style value is the string assigned. \<open>Px x\<close> is the template string
  \<^verbatim>\<open>`${x}px`\<close>; the number type \<open>'n\<close> is left open, so nothing below depends on
  how the arithmetic of the platform rounds.
\<close>

datatype 'n css = Str string | Px 'n

record 'n DOMRect =
  rect_top :: 'n
  rect_left :: 'n
  rect_width :: 'n
  rect_height :: 'n

record 'n element =
  tag :: string
  style :: "style_property \<Rightarrow> 'n css"
  innerHTML :: string
  type_attr :: string
  children :: "ref list"

text \<open>
  The two arrow functions of the source: \<^verbatim>\<open>() => updateCirclePosition(targetElement)\<close>,
  which captures its target, and \<^verbatim>\<open>() => {}\<close>.
\<close>

datatype closure = Recompute ref | Noop

text \<open>A registered listener: event type, identity of the function object, its code.\<close>

type_synonym listener = "string \<times> ref \<times> closure"

record 'n state =
  circle :: "ref option"
  styleSheet :: "ref option"
  elems :: "ref \<Rightarrow> 'n element"
  fresh :: ref
  body :: "ref list"
  head :: "ref list"
  listeners :: "listener list"
  bounds :: "ref \<Rightarrow> 'n DOMRect"

text \<open>Where a node can be attached.\<close>

datatype node = Body | Head | Element ref

subsection \<open>The DOM operations the source calls\<close>

text \<open>\<^verbatim>\<open>document.createElement(tag)\<close>: a new element with an empty style, attached nowhere.\<close>

definition createElement :: "string \<Rightarrow> 'n state \<Rightarrow> ref \<times> 'n state" where
  "createElement t s =
     (fresh s,
      s\<lparr>elems := (elems s)(fresh s :=
            \<lparr>tag = t, style = (\<lambda>_. Str []), innerHTML = [], type_attr = [], children = []\<rparr>),
        fresh := Suc (fresh s)\<rparr>)"

text \<open>\<^verbatim>\<open>e.style.p = v\<close>, \<^verbatim>\<open>e.innerHTML = v\<close> and \<^verbatim>\<open>e.type = v\<close>.\<close>

definition setStyle :: "ref \<Rightarrow> style_property \<Rightarrow> 'n css \<Rightarrow> 'n state \<Rightarrow> 'n state" where
  "setStyle r p v s =
     s\<lparr>elems := (elems s)(r := (elems s r)\<lparr>style := (style (elems s r))(p := v)\<rparr>)\<rparr>"

definition setInnerHTML :: "ref \<Rightarrow> string \<Rightarrow> 'n state \<Rightarrow> 'n state" where
  "setInnerHTML r v s = s\<lparr>elems := (elems s)(r := (elems s r)\<lparr>innerHTML := v\<rparr>)\<rparr>"

definition setType :: "ref \<Rightarrow> string \<Rightarrow> 'n state \<Rightarrow> 'n state" where
  "setType r v s = s\<lparr>elems := (elems s)(r := (elems s r)\<lparr>type_attr := v\<rparr>)\<rparr>"

text \<open>
  \<^verbatim>\<open>x.remove()\<close> takes \<open>x\<close> out of the child list of its parent, whichever it is.
\<close>

definition detach :: "ref \<Rightarrow> 'n state \<Rightarrow> 'n state" where
  "detach x s =
     s\<lparr>body := removeAll x (body s),
       head := removeAll x (head s),
       elems := (\<lambda>r. (elems s r)\<lparr>children := removeAll x (children (elems s r))\<rparr>)\<rparr>"

text \<open>\<^verbatim>\<open>p.appendChild(x)\<close>: \<open>x\<close> leaves its old parent and becomes the last child of \<open>p\<close>.\<close>

definition appendChild :: "node \<Rightarrow> ref \<Rightarrow> 'n state \<Rightarrow> 'n state" where
  "appendChild p x s =
     (let s = detach x s in
      case p of
        Body \<Rightarrow> s\<lparr>body := body s @ [x]\<rparr>
      | Head \<Rightarrow> s\<lparr>head := head s @ [x]\<rparr>
      | Element r \<Rightarrow>
          s\<lparr>elems := (elems s)(r := (elems s r)\<lparr>children := children (elems s r) @ [x]\<rparr>)\<rparr>)"

text \<open>Evaluating an arrow function expression makes a new function object.\<close>

definition newClosure :: "'n state \<Rightarrow> ref \<times> 'n state" where
  "newClosure s = (fresh s, s\<lparr>fresh := Suc (fresh s)\<rparr>)"

text \<open>
  \<^verbatim>\<open>window.addEventListener(type, f)\<close> appends the listener unless one with the same
  type and the same function object is there; \<^verbatim>\<open>window.removeEventListener(type, f)\<close>
  removes the listener with that type and that function object.
\<close>

definition addEventListener :: "string \<Rightarrow> ref \<Rightarrow> closure \<Rightarrow> 'n state \<Rightarrow> 'n state" where
  "addEventListener ev f c s =
     (if (ev, f) \<in> set (map (\<lambda>(e, i, _). (e, i)) (listeners s)) then s
      else s\<lparr>listeners := listeners s @ [(ev, f, c)]\<rparr>)"

definition removeEventListener :: "string \<Rightarrow> ref \<Rightarrow> 'n state \<Rightarrow> 'n state" where
  "removeEventListener ev f s =
     s\<lparr>listeners := filter (\<lambda>(e, i, _). \<not> (e = ev \<and> i = f)) (listeners s)\<rparr>"

subsection \<open>The functions of the module\<close>

text \<open>
  The template string assigned to \<^verbatim>\<open>styleSheet.innerHTML\<close>, character by character:
  it opens with a line break, every line keeps its indentation, and it ends with a line
  break and the eight blanks before the closing backquote (476 characters; \<open>CHR 0x0A\<close>
  is the line break).
\<close>

definition glow_keyframes :: string where
  "glow_keyframes =
     [CHR 0x0A] @
     ''            @keyframes glow-right {'' @ [CHR 0x0A] @
     ''                0% {'' @ [CHR 0x0A] @
     ''                    transform: translate(-50%, -50%) scale(0.9);'' @ [CHR 0x0A] @
     ''                    opacity: 0.9;'' @ [CHR 0x0A] @
     ''                }'' @ [CHR 0x0A] @
     ''                50% {'' @ [CHR 0x0A] @
     ''                    transform: translate(-50%, -50%) scale(1.1);'' @ [CHR 0x0A] @
     ''                    opacity: 0.7;'' @ [CHR 0x0A] @
     ''                }'' @ [CHR 0x0A] @
     ''                100% {'' @ [CHR 0x0A] @
     ''                    transform: translate(-50%, -50%) scale(0.9);'' @ [CHR 0x0A] @
     ''                    opacity: 0.9;'' @ [CHR 0x0A] @
     ''                }'' @ [CHR 0x0A] @
     ''            }'' @ [CHR 0x0A] @
     ''        ''"

definition createCircleElement :: "string option \<Rightarrow> 'n state \<Rightarrow> ref \<times> 'n state" where
  "createCircleElement color_arg s =
     (let color = (case color_arg of None \<Rightarrow> ''BLUE'' | Some c \<Rightarrow> c);
          (circleElement, s) = createElement ''div'' s;
          gradient =
            (if color = ''PURPLE'' then ''radial-gradient(circle, #9c27b0, #6a0080)''
             else if color = ''GRAY'' then ''radial-gradient(circle, #c0c0c0, #808080)''
             else ''radial-gradient(circle, #5f9eff, #003f9f)'');
          boxShadow =
            (if color = ''PURPLE''
             then ''0 0 15px 5px rgba(156, 39, 176, 0.6), 0 0 30px 15px rgba(106, 0, 128, 0.3)''
             else if color = ''GRAY''
             then ''0 0 15px 5px rgba(192,192,192,0.5), 0 0 30px 15px rgba(128,128,128,0.3)''
             else ''0 0 15px 5px rgba(0, 63, 159, 0.5), 0 0 30px 15px rgba(0, 63, 159, 0.3)'');
          s = setStyle circleElement Width (Str ''60px'') s;
          s = setStyle circleElement Height (Str ''60px'') s;
          s = setStyle circleElement Background (Str gradient) s;
          s = setStyle circleElement BorderRadius (Str ''50%'') s;
          s = setStyle circleElement Position (Str ''absolute'') s;
          s = setStyle circleElement Transform (Str ''translate(-50%, -50%)'') s;
          s = setStyle circleElement Display (Str ''flex'') s;
          s = setStyle circleElement AlignItems (Str ''center'') s;
          s = setStyle circleElement JustifyContent (Str ''center'') s;
          s = setStyle circleElement BoxShadow (Str boxShadow) s;
          s = setStyle circleElement Animation (Str ''glow-right 2s infinite'') s;
          s = setStyle circleElement PointerEvents (Str ''none'') s;
          s = setStyle circleElement ZIndex (Str ''9999'') s
      in (circleElement, s))"

text \<open>The glyph is U+2726, written here as its three UTF-8 bytes.\<close>

definition createIconElement :: "'n state \<Rightarrow> ref \<times> 'n state" where
  "createIconElement s =
     (let (icon, s) = createElement ''div'' s;
          s = setInnerHTML icon [CHR 0xE2, CHR 0x9C, CHR 0xA6] s;
          s = setStyle icon FontSize (Str ''24px'') s;
          s = setStyle icon Color (Str ''white'') s
      in (icon, s))"

definition addGlowAnimationStyles :: "'n state \<Rightarrow> 'n state" where
  "addGlowAnimationStyles s =
     (case styleSheet s of
        None \<Rightarrow>
          (let (e, s) = createElement ''style'' s;
               s = s\<lparr>styleSheet := Some e\<rparr>;
               s = setType e ''text/css'' s;
               s = setInnerHTML e glow_keyframes s;
               s = appendChild Head e s
           in s)
      | Some _ \<Rightarrow> s)"

definition updateCirclePosition ::
  "ref \<Rightarrow> ('n::{plus,inverse,numeral}) state \<Rightarrow> 'n state" where
  "updateCirclePosition targetElement s =
     (case circle s of
        None \<Rightarrow> s
      | Some c \<Rightarrow>
          (let rect = bounds s targetElement;
               s = setStyle c Top (Px (rect_top rect + rect_height rect / 2)) s;
               s = setStyle c Left_prop (Px (rect_left rect + rect_width rect / 2)) s
           in s))"

definition createGlowingMovingCircle ::
  "ref \<Rightarrow> string option \<Rightarrow> ('n::{plus,inverse,numeral}) state \<Rightarrow> 'n state" where
  "createGlowingMovingCircle targetElement color_arg s =
     (case circle s of
        Some _ \<Rightarrow> s
      | None \<Rightarrow>
          (let color = (case color_arg of None \<Rightarrow> ''BLUE'' | Some c \<Rightarrow> c);
               s = addGlowAnimationStyles s;
               (c, s) = createCircleElement (Some color) s;
               s = s\<lparr>circle := Some c\<rparr>;
               (icon, s) = createIconElement s;
               s = appendChild (Element c) icon s;
               s = updateCirclePosition targetElement s;
               s = appendChild Body c s;
               (f, s) = newClosure s;
               s = addEventListener ''resize'' f (Recompute targetElement) s;
               (g, s) = newClosure s;
               s = addEventListener ''scroll'' g (Recompute targetElement) s
           in s))"

definition showCircle ::
  "ref \<Rightarrow> string option \<Rightarrow> ('n::{plus,inverse,numeral}) state \<Rightarrow> 'n state" where
  "showCircle targetElement color_arg s =
     (let color = (case color_arg of None \<Rightarrow> ''BLUE'' | Some c \<Rightarrow> c) in
      case circle s of
        None \<Rightarrow> createGlowingMovingCircle targetElement (Some color) s
      | Some c \<Rightarrow>
          (let s = setStyle c Display (Str ''flex'') s;
               s = setStyle c Background
                     (Str (if color = ''PURPLE'' then ''radial-gradient(circle, #9c27b0, #6a0080)''
                           else if color = ''GRAY'' then ''radial-gradient(circle, #c0c0c0, #808080)''
                           else ''radial-gradient(circle, #5f9eff, #003f9f)'')) s;
               s = updateCirclePosition targetElement s
           in s))"

definition hideCircle :: "'n state \<Rightarrow> 'n state" where
  "hideCircle s =
     (case circle s of
        Some c \<Rightarrow> setStyle c Display (Str ''none'') s
      | None \<Rightarrow> s)"

definition destroyCircle :: "'n state \<Rightarrow> 'n state" where
  "destroyCircle s =
     (let s = (case circle s of Some c \<Rightarrow> (detach c s)\<lparr>circle := None\<rparr> | None \<Rightarrow> s);
          s = (case styleSheet s of Some e \<Rightarrow> (detach e s)\<lparr>styleSheet := None\<rparr> | None \<Rightarrow> s);
          (f, s) = newClosure s;
          s = removeEventListener ''resize'' f s;
          (g, s) = newClosure s;
          s = removeEventListener ''scroll'' g s
      in s)"

subsection \<open>Events, and runs of the module\<close>

text \<open>Calling a registered function object.\<close>

fun call :: "closure \<Rightarrow> ('n::{plus,inverse,numeral}) state \<Rightarrow> 'n state" where
  "call (Recompute targetElement) s = updateCirclePosition targetElement s"
| "call Noop s = s"

text \<open>
  An event of type \<open>ev\<close> on \<^verbatim>\<open>window\<close> calls the listeners registered for \<open>ev\<close>, in
  the order of their registration.
\<close>

definition fire :: "string \<Rightarrow> ('n::{plus,inverse,numeral}) state \<Rightarrow> 'n state" where
  "fire ev s = foldl (\<lambda>s (e, i, c). if e = ev then call c s else s) s (listeners s)"

text \<open>
  What can happen to the module between two observations: a call of one of its three
  exported functions, an event on \<^verbatim>\<open>window\<close>, or a change of the layout of the page.
\<close>

datatype 'n op =
  Show ref "string option" | Hide | Destroy | Fire string | Relayout "ref \<Rightarrow> 'n DOMRect"

fun step :: "('n::{plus,inverse,numeral}) op \<Rightarrow> 'n state \<Rightarrow> 'n state" where
  "step (Show t c) s = showCircle t c s"
| "step Hide s = hideCircle s"
| "step Destroy s = destroyCircle s"
| "step (Fire ev) s = fire ev s"
| "step (Relayout b) s = s\<lparr>bounds := b\<rparr>"

fun run :: "('n::{plus,inverse,numeral}) op list \<Rightarrow> 'n state \<Rightarrow> 'n state" where
  "run [] s = s"
| "run (x # xs) s = run xs (step x s)"

text \<open>
  Object identities in use lie below the allocation counter. The module starts with both
  variables \<^verbatim>\<open>null\<close>, in any page that satisfies this.
\<close>

definition well_formed :: "'n state \<Rightarrow> bool" where
  "well_formed s \<longleftrightarrow>
     (\<forall>x \<in> set (body s). x < fresh s) \<and>
     (\<forall>x \<in> set (head s). x < fresh s) \<and>
     (\<forall>l \<in> set (listeners s). fst (snd l) < fresh s)"

definition init :: "'n state \<Rightarrow> bool" where
  "init s \<longleftrightarrow> circle s = None \<and> styleSheet s = None \<and> well_formed s"

text \<open>What \<^verbatim>\<open>circle.style.p\<close> reads, when the handle exists.\<close>

definition circle_style :: "'n state \<Rightarrow> style_property \<Rightarrow> 'n css option" where
  "circle_style s p = (case circle s of None \<Rightarrow> None | Some c \<Rightarrow> Some (style (elems s c) p))"

text \<open>
  Where the indicator stands (its \<^verbatim>\<open>top\<close> and \<^verbatim>\<open>left\<close>), when the handle exists,
  and the two values that put it on the centre of a rectangle.
\<close>

definition position :: "'n state \<Rightarrow> ('n css \<times> 'n css) option" where
  "position s =
     (case circle s of None \<Rightarrow> None
      | Some c \<Rightarrow> Some (style (elems s c) Top, style (elems s c) Left_prop))"

definition centre :: "('n::{plus,inverse,numeral}) DOMRect \<Rightarrow> 'n css \<times> 'n css" where
  "centre rect =
     (Px (rect_top rect + rect_height rect / 2), Px (rect_left rect + rect_width rect / 2))"

text \<open>
  Layout. The module reads the rectangle of its target in the coordinates of the viewport
  (\<^verbatim>\<open>getBoundingClientRect\<close>) and writes \<^verbatim>\<open>top\<close> and \<^verbatim>\<open>left\<close> of the indicator.
  Where the browser then draws the indicator, in the same coordinates, depends on its
  \<^verbatim>\<open>position\<close>. The offsets of a \<^verbatim>\<open>fixed\<close> box count from the viewport. Those of an
  \<^verbatim>\<open>absolute\<close> box count from its containing block, which for a child of the body is
  the initial containing block (the root element and the body are not positioned, as by
  default); its origin is the origin of the page, which stands at
  \<open>(- scrollX, - scrollY)\<close> in the viewport when the page is scrolled by
  \<^verbatim>\<open>window.scrollX\<close> and \<^verbatim>\<open>window.scrollY\<close>. The transform
  \<^verbatim>\<open>translate(-50%, -50%)\<close> moves the box by half its own size, so that its centre
  lies on the point \<open>(left, top)\<close>, whatever its width and height. An element that is
  not in the document, or has \<^verbatim>\<open>display: none\<close>, is not drawn.

  Points are written \<open>(y, x)\<close>, as \<open>(top, left)\<close>.
\<close>

record 'n scroll_offset =
  scrollX :: 'n
  scrollY :: 'n

definition box_centre :: "('n::{plus,inverse,numeral}) DOMRect \<Rightarrow> 'n \<times> 'n" where
  "box_centre rect =
     (rect_top rect + rect_height rect / 2, rect_left rect + rect_width rect / 2)"

definition rendered_centre :: "('n::minus) scroll_offset \<Rightarrow> 'n state \<Rightarrow> ('n \<times> 'n) option" where
  "rendered_centre w s =
     (case circle s of
        None \<Rightarrow> None
      | Some c \<Rightarrow>
          (if c \<in> set (body s) \<and> style (elems s c) Display \<noteq> Str ''none'' \<and>
              style (elems s c) Transform = Str ''translate(-50%, -50%)''
           then (case (style (elems s c) Position, style (elems s c) Top,
                       style (elems s c) Left_prop) of
                   (Str pos, Px y, Px x) \<Rightarrow>
                     if pos = ''fixed'' then Some (y, x)
                     else if pos = ''absolute'' then Some (y - scrollY w, x - scrollX w)
                     else None
                 | _ \<Rightarrow> None)
           else None))"

text \<open>The handle as a list of zero or one elements.\<close>

definition handle :: "ref option \<Rightarrow> ref list" where
  "handle h = (case h of None \<Rightarrow> [] | Some r \<Rightarrow> [r])"

text \<open>
  The invariant of a run that starts in \<open>s0\<close>: the page holds what it held at the
  start, then the element of each handle that is present, and the two handles are present
  together.
\<close>

definition run_inv :: "'n state \<Rightarrow> 'n state \<Rightarrow> bool" where
  "run_inv s0 s \<longleftrightarrow>
     well_formed s \<and>
     body s = body s0 @ handle (circle s) \<and>
     head s = head s0 @ handle (styleSheet s) \<and>
     (circle s = None \<longleftrightarrow> styleSheet s = None) \<and>
     (\<forall>r. circle s = Some r \<longrightarrow>
        r \<notin> set (body s0) \<and> r \<notin> set (head s0) \<and> styleSheet s \<noteq> Some r) \<and>
     (\<forall>e. styleSheet s = Some e \<longrightarrow> e \<notin> set (body s0) \<and> e \<notin> set (head s0))"

text \<open>
  A concrete page for the examples: one element in the head, two in the body (the targets
  \<open>1\<close> and \<open>2\<close>), no listener, and the module as it is when it has just been loaded.
\<close>

definition example_page :: "real state" where
  "example_page =
     \<lparr>circle = None, styleSheet = None,
      elems = (\<lambda>_. \<lparr>tag = ''div'', style = (\<lambda>_. Str []), innerHTML = [], type_attr = [],
                      children = []\<rparr>),
      fresh = 3, body = [1, 2], head = [0], listeners = [],
      bounds = (\<lambda>r. if r = 1
                     then \<lparr>rect_top = 100, rect_left = 40, rect_width = 80, rect_height = 20\<rparr>
                     else \<lparr>rect_top = 300, rect_left = 10, rect_width = 50, rect_height = 30\<rparr>)\<rparr>"

section \<open>How the DOM operations act on each part of the state\<close>

lemma createElement_simps [simp]:
  "fst (createElement t s) = fresh s"
  "circle (snd (createElement t s)) = circle s"
  "styleSheet (snd (createElement t s)) = styleSheet s"
  "fresh (snd (createElement t s)) = Suc (fresh s)"
  "body (snd (createElement t s)) = body s"
  "head (snd (createElement t s)) = head s"
  "listeners (snd (createElement t s)) = listeners s"
  "bounds (snd (createElement t s)) = bounds s"
  "r \<noteq> fresh s \<Longrightarrow> elems (snd (createElement t s)) r = elems s r"
  "style (elems (snd (createElement t s)) (fresh s)) p = Str []"
  by (simp_all add: createElement_def)

lemma setStyle_simps [simp]:
  "circle (setStyle r p v s) = circle s"
  "styleSheet (setStyle r p v s) = styleSheet s"
  "fresh (setStyle r p v s) = fresh s"
  "body (setStyle r p v s) = body s"
  "head (setStyle r p v s) = head s"
  "listeners (setStyle r p v s) = listeners s"
  "bounds (setStyle r p v s) = bounds s"
  "style (elems (setStyle r p v s) r') p' = (if r' = r \<and> p' = p then v else style (elems s r') p')"
  "r' \<noteq> r \<Longrightarrow> elems (setStyle r p v s) r' = elems s r'"
  by (simp_all add: setStyle_def)

lemma setInnerHTML_simps [simp]:
  "circle (setInnerHTML r v s) = circle s"
  "styleSheet (setInnerHTML r v s) = styleSheet s"
  "fresh (setInnerHTML r v s) = fresh s"
  "body (setInnerHTML r v s) = body s"
  "head (setInnerHTML r v s) = head s"
  "listeners (setInnerHTML r v s) = listeners s"
  "bounds (setInnerHTML r v s) = bounds s"
  "style (elems (setInnerHTML r v s) r') = style (elems s r')"
  "r' \<noteq> r \<Longrightarrow> elems (setInnerHTML r v s) r' = elems s r'"
  by (simp_all add: setInnerHTML_def)

lemma setType_simps [simp]:
  "circle (setType r v s) = circle s"
  "styleSheet (setType r v s) = styleSheet s"
  "fresh (setType r v s) = fresh s"
  "body (setType r v s) = body s"
  "head (setType r v s) = head s"
  "listeners (setType r v s) = listeners s"
  "bounds (setType r v s) = bounds s"
  "style (elems (setType r v s) r') = style (elems s r')"
  "r' \<noteq> r \<Longrightarrow> elems (setType r v s) r' = elems s r'"
  by (simp_all add: setType_def)

lemma detach_simps [simp]:
  "circle (detach x s) = circle s"
  "styleSheet (detach x s) = styleSheet s"
  "fresh (detach x s) = fresh s"
  "body (detach x s) = removeAll x (body s)"
  "head (detach x s) = removeAll x (head s)"
  "listeners (detach x s) = listeners s"
  "bounds (detach x s) = bounds s"
  "style (elems (detach x s) r) = style (elems s r)"
  by (simp_all add: detach_def)

lemma appendChild_simps [simp]:
  "circle (appendChild p x s) = circle s"
  "styleSheet (appendChild p x s) = styleSheet s"
  "fresh (appendChild p x s) = fresh s"
  "listeners (appendChild p x s) = listeners s"
  "bounds (appendChild p x s) = bounds s"
  "style (elems (appendChild p x s) r) = style (elems s r)"
  "body (appendChild p x s) = removeAll x (body s) @ (if p = Body then [x] else [])"
  "head (appendChild p x s) = removeAll x (head s) @ (if p = Head then [x] else [])"
  by (simp_all add: appendChild_def Let_def split: node.splits)

lemma newClosure_simps [simp]:
  "fst (newClosure s) = fresh s"
  "snd (newClosure s) = s\<lparr>fresh := Suc (fresh s)\<rparr>"
  by (simp_all add: newClosure_def)

lemma addEventListener_simps [simp]:
  "circle (addEventListener ev f c s) = circle s"
  "styleSheet (addEventListener ev f c s) = styleSheet s"
  "fresh (addEventListener ev f c s) = fresh s"
  "body (addEventListener ev f c s) = body s"
  "head (addEventListener ev f c s) = head s"
  "elems (addEventListener ev f c s) = elems s"
  "bounds (addEventListener ev f c s) = bounds s"
  by (simp_all add: addEventListener_def)

lemma addEventListener_new:
  "\<forall>l \<in> set (listeners s). fst (snd l) \<noteq> f \<Longrightarrow>
   listeners (addEventListener ev f c s) = listeners s @ [(ev, f, c)]"
  by (auto simp: addEventListener_def)

lemma removeEventListener_simps [simp]:
  "circle (removeEventListener ev f s) = circle s"
  "styleSheet (removeEventListener ev f s) = styleSheet s"
  "fresh (removeEventListener ev f s) = fresh s"
  "body (removeEventListener ev f s) = body s"
  "head (removeEventListener ev f s) = head s"
  "elems (removeEventListener ev f s) = elems s"
  "bounds (removeEventListener ev f s) = bounds s"
  by (simp_all add: removeEventListener_def)

lemma removeEventListener_absent:
  "\<forall>l \<in> set (listeners s). fst (snd l) \<noteq> f \<Longrightarrow> removeEventListener ev f s = s"
proof -
  assume a: "\<forall>l \<in> set (listeners s). fst (snd l) \<noteq> f"
  have "filter (\<lambda>(e, i, _). \<not> (e = ev \<and> i = f)) (listeners s) = listeners s"
    by (rule filter_True) (use a in auto)
  then show ?thesis by (simp add: removeEventListener_def)
qed

section \<open>How the functions of the module act on each part of the state\<close>

lemma createCircleElement_simps [simp]:
  "fst (createCircleElement c s) = fresh s"
  "circle (snd (createCircleElement c s)) = circle s"
  "styleSheet (snd (createCircleElement c s)) = styleSheet s"
  "fresh (snd (createCircleElement c s)) = Suc (fresh s)"
  "body (snd (createCircleElement c s)) = body s"
  "head (snd (createCircleElement c s)) = head s"
  "listeners (snd (createCircleElement c s)) = listeners s"
  "bounds (snd (createCircleElement c s)) = bounds s"
  "r \<noteq> fresh s \<Longrightarrow> elems (snd (createCircleElement c s)) r = elems s r"
  by (simp_all add: createCircleElement_def Let_def split_def)

lemma createCircleElement_style:
  "style (elems (snd (createCircleElement c s)) (fresh s)) Display = Str ''flex''"
  "style (elems (snd (createCircleElement c s)) (fresh s)) Transform = Str ''translate(-50%, -50%)''"
  "style (elems (snd (createCircleElement c s)) (fresh s)) Top = Str []"
  "style (elems (snd (createCircleElement c s)) (fresh s)) Left_prop = Str []"
  by (simp_all add: createCircleElement_def Let_def split_def)

lemma createCircleElement_Background:
  "style (elems (snd (createCircleElement (Some v) s)) (fresh s)) Background =
     Str (if v = ''PURPLE'' then ''radial-gradient(circle, #9c27b0, #6a0080)''
          else if v = ''GRAY'' then ''radial-gradient(circle, #c0c0c0, #808080)''
          else ''radial-gradient(circle, #5f9eff, #003f9f)'')"
  by (simp add: createCircleElement_def Let_def split_def)

lemma createCircleElement_BoxShadow:
  "style (elems (snd (createCircleElement (Some v) s)) (fresh s)) BoxShadow =
     Str (if v = ''PURPLE''
          then ''0 0 15px 5px rgba(156, 39, 176, 0.6), 0 0 30px 15px rgba(106, 0, 128, 0.3)''
          else if v = ''GRAY''
          then ''0 0 15px 5px rgba(192,192,192,0.5), 0 0 30px 15px rgba(128,128,128,0.3)''
          else ''0 0 15px 5px rgba(0, 63, 159, 0.5), 0 0 30px 15px rgba(0, 63, 159, 0.3)'')"
  by (simp add: createCircleElement_def Let_def split_def)

lemma createIconElement_simps [simp]:
  "fst (createIconElement s) = fresh s"
  "circle (snd (createIconElement s)) = circle s"
  "styleSheet (snd (createIconElement s)) = styleSheet s"
  "fresh (snd (createIconElement s)) = Suc (fresh s)"
  "body (snd (createIconElement s)) = body s"
  "head (snd (createIconElement s)) = head s"
  "listeners (snd (createIconElement s)) = listeners s"
  "bounds (snd (createIconElement s)) = bounds s"
  "r \<noteq> fresh s \<Longrightarrow> elems (snd (createIconElement s)) r = elems s r"
  by (simp_all add: createIconElement_def Let_def split_def)

lemma addGlowAnimationStyles_present: "styleSheet s = Some e \<Longrightarrow> addGlowAnimationStyles s = s"
  by (simp add: addGlowAnimationStyles_def)

lemma addGlowAnimationStyles_absent:
  assumes "styleSheet s = None"
  shows "styleSheet (addGlowAnimationStyles s) = Some (fresh s)"
    and "fresh (addGlowAnimationStyles s) = Suc (fresh s)"
    and "body (addGlowAnimationStyles s) = removeAll (fresh s) (body s)"
    and "head (addGlowAnimationStyles s) = removeAll (fresh s) (head s) @ [fresh s]"
  using assms by (simp_all add: addGlowAnimationStyles_def Let_def split_def)

lemma addGlowAnimationStyles_simps [simp]:
  "circle (addGlowAnimationStyles s) = circle s"
  "listeners (addGlowAnimationStyles s) = listeners s"
  "bounds (addGlowAnimationStyles s) = bounds s"
  by (simp_all add: addGlowAnimationStyles_def Let_def split_def split: option.splits)

lemma updateCirclePosition_simps [simp]:
  "circle (updateCirclePosition t s) = circle s"
  "styleSheet (updateCirclePosition t s) = styleSheet s"
  "fresh (updateCirclePosition t s) = fresh s"
  "body (updateCirclePosition t s) = body s"
  "head (updateCirclePosition t s) = head s"
  "listeners (updateCirclePosition t s) = listeners s"
  "bounds (updateCirclePosition t s) = bounds s"
  by (simp_all add: updateCirclePosition_def Let_def split: option.splits)

lemma updateCirclePosition_style:
  "style (elems (updateCirclePosition t s) r) p =
     (if circle s = Some r \<and> p = Top
      then Px (rect_top (bounds s t) + rect_height (bounds s t) / 2)
      else if circle s = Some r \<and> p = Left_prop
      then Px (rect_left (bounds s t) + rect_width (bounds s t) / 2)
      else style (elems s r) p)"
  by (auto simp: updateCirclePosition_def Let_def split: option.splits)

lemma updateCirclePosition_other:
  "circle s \<noteq> Some r \<Longrightarrow> elems (updateCirclePosition t s) r = elems s r"
  by (auto simp: updateCirclePosition_def Let_def split: option.splits)

lemma updateCirclePosition_absent: "circle s = None \<Longrightarrow> updateCirclePosition t s = s"
  by (simp add: updateCirclePosition_def)

lemma call_simps [simp]:
  "circle (call c s) = circle s"
  "styleSheet (call c s) = styleSheet s"
  "fresh (call c s) = fresh s"
  "body (call c s) = body s"
  "head (call c s) = head s"
  "listeners (call c s) = listeners s"
  "bounds (call c s) = bounds s"
  by (cases c; simp)+

lemma call_other: "circle s \<noteq> Some r \<Longrightarrow> elems (call c s) r = elems s r"
  by (cases c) (simp_all add: updateCirclePosition_other)

lemma dispatch_simps:
  "circle (foldl (\<lambda>s (e, i, c). if e = ev then call c s else s) s xs) = circle s"
  "styleSheet (foldl (\<lambda>s (e, i, c). if e = ev then call c s else s) s xs) = styleSheet s"
  "fresh (foldl (\<lambda>s (e, i, c). if e = ev then call c s else s) s xs) = fresh s"
  "body (foldl (\<lambda>s (e, i, c). if e = ev then call c s else s) s xs) = body s"
  "head (foldl (\<lambda>s (e, i, c). if e = ev then call c s else s) s xs) = head s"
  "listeners (foldl (\<lambda>s (e, i, c). if e = ev then call c s else s) s xs) = listeners s"
  "bounds (foldl (\<lambda>s (e, i, c). if e = ev then call c s else s) s xs) = bounds s"
  by (induction xs arbitrary: s; simp add: split_def)+

lemma dispatch_other:
  "circle s \<noteq> Some r \<Longrightarrow>
   elems (foldl (\<lambda>s (e, i, c). if e = ev then call c s else s) s xs) r = elems s r"
  by (induction xs arbitrary: s) (simp_all add: split_def call_other)

lemma fire_simps [simp]:
  "circle (fire ev s) = circle s"
  "styleSheet (fire ev s) = styleSheet s"
  "fresh (fire ev s) = fresh s"
  "body (fire ev s) = body s"
  "head (fire ev s) = head s"
  "listeners (fire ev s) = listeners s"
  "bounds (fire ev s) = bounds s"
  by (simp_all add: fire_def dispatch_simps)

lemma fire_other: "circle s \<noteq> Some r \<Longrightarrow> elems (fire ev s) r = elems s r"
  by (simp add: fire_def dispatch_other)

lemma hideCircle_simps [simp]:
  "circle (hideCircle s) = circle s"
  "styleSheet (hideCircle s) = styleSheet s"
  "fresh (hideCircle s) = fresh s"
  "body (hideCircle s) = body s"
  "head (hideCircle s) = head s"
  "listeners (hideCircle s) = listeners s"
  "bounds (hideCircle s) = bounds s"
  by (simp_all add: hideCircle_def split: option.splits)

lemma hideCircle_other: "circle s \<noteq> Some r \<Longrightarrow> elems (hideCircle s) r = elems s r"
  by (auto simp: hideCircle_def split: option.splits)

lemma showCircle_existing:
  assumes "circle s = Some r"
  shows "circle (showCircle t c s) = Some r"
    and "styleSheet (showCircle t c s) = styleSheet s"
    and "fresh (showCircle t c s) = fresh s"
    and "body (showCircle t c s) = body s"
    and "head (showCircle t c s) = head s"
    and "listeners (showCircle t c s) = listeners s"
    and "bounds (showCircle t c s) = bounds s"
    and "r' \<noteq> r \<Longrightarrow> elems (showCircle t c s) r' = elems s r'"
  using assms by (simp_all add: showCircle_def Let_def updateCirclePosition_other)

lemma showCircle_existing_children:
  "circle s = Some r \<Longrightarrow> children (elems (showCircle t c s) x) = children (elems s x)"
  by (simp add: showCircle_def Let_def updateCirclePosition_def setStyle_def)

lemma wf_fresh:
  assumes "well_formed s" and "fresh s \<le> x"
  shows "x \<notin> set (body s)" and "x \<notin> set (head s)"
    and "\<forall>l \<in> set (listeners s). fst (snd l) \<noteq> x"
  using assms by (auto simp: well_formed_def)

lemma showCircle_create:
  assumes "circle s = None" and "styleSheet s = None" and "well_formed s"
  shows "circle (showCircle t c s) = Some (Suc (fresh s))"
    and "styleSheet (showCircle t c s) = Some (fresh s)"
    and "fresh (showCircle t c s) = fresh s + 5"
    and "body (showCircle t c s) = body s @ [Suc (fresh s)]"
    and "head (showCircle t c s) = head s @ [fresh s]"
    and "listeners (showCircle t c s) =
           listeners s @ [(''resize'', fresh s + 3, Recompute t), (''scroll'', fresh s + 4, Recompute t)]"
    and "bounds (showCircle t c s) = bounds s"
proof -
  note f = wf_fresh [OF assms(3)]
  have nb: "fresh s \<notin> set (body s)" "Suc (fresh s) \<notin> set (body s)" "Suc (Suc (fresh s)) \<notin> set (body s)"
    and nh: "fresh s \<notin> set (head s)" "Suc (fresh s) \<notin> set (head s)" "Suc (Suc (fresh s)) \<notin> set (head s)"
    by (simp_all add: f)
  have nl: "\<forall>l \<in> set (listeners s). fst (snd l) \<noteq> Suc (Suc (Suc (fresh s)))"
    "\<forall>l \<in> set (listeners s). fst (snd l) \<noteq> Suc (Suc (Suc (Suc (fresh s))))"
    by (simp_all add: f)
  show "circle (showCircle t c s) = Some (Suc (fresh s))"
    using assms(1,2)
    by (simp add: showCircle_def createGlowingMovingCircle_def Let_def split_def
        addGlowAnimationStyles_absent)
  show "styleSheet (showCircle t c s) = Some (fresh s)"
    using assms(1,2)
    by (simp add: showCircle_def createGlowingMovingCircle_def Let_def split_def
        addGlowAnimationStyles_absent)
  show "fresh (showCircle t c s) = fresh s + 5"
    using assms(1,2)
    by (simp add: showCircle_def createGlowingMovingCircle_def Let_def split_def
        addGlowAnimationStyles_absent)
  show "body (showCircle t c s) = body s @ [Suc (fresh s)]"
    using assms(1,2) nb
    by (simp add: showCircle_def createGlowingMovingCircle_def Let_def split_def
        addGlowAnimationStyles_absent)
  show "head (showCircle t c s) = head s @ [fresh s]"
    using assms(1,2) nh
    by (simp add: showCircle_def createGlowingMovingCircle_def Let_def split_def
        addGlowAnimationStyles_absent)
  show "bounds (showCircle t c s) = bounds s"
    using assms(1,2)
    by (simp add: showCircle_def createGlowingMovingCircle_def Let_def split_def)
  show "listeners (showCircle t c s) =
           listeners s @ [(''resize'', fresh s + 3, Recompute t), (''scroll'', fresh s + 4, Recompute t)]"
    using assms(1,2) nl
    by (auto simp: showCircle_def createGlowingMovingCircle_def Let_def split_def
        addGlowAnimationStyles_absent addEventListener_def)
qed

section \<open>Teardown, and the invariant of every run\<close>

lemma destroyCircle_simps [simp]:
  "circle (destroyCircle s) = None"
  "styleSheet (destroyCircle s) = None"
  "fresh (destroyCircle s) = fresh s + 2"
  "bounds (destroyCircle s) = bounds s"
  "style (elems (destroyCircle s) r) = style (elems s r)"
  by (simp_all add: destroyCircle_def Let_def split_def split: option.splits)

lemma destroyCircle_body:
  "body (destroyCircle s) = filter (\<lambda>x. Some x \<noteq> circle s \<and> Some x \<noteq> styleSheet s) (body s)"
  by (auto simp: destroyCircle_def Let_def split_def removeAll_filter_not_eq
      split: option.splits intro!: filter_cong)

lemma destroyCircle_head:
  "head (destroyCircle s) = filter (\<lambda>x. Some x \<noteq> circle s \<and> Some x \<noteq> styleSheet s) (head s)"
  by (auto simp: destroyCircle_def Let_def split_def removeAll_filter_not_eq
      split: option.splits intro!: filter_cong)

lemma destroyCircle_listeners:
  assumes "well_formed s"
  shows "listeners (destroyCircle s) = listeners s"
proof -
  have a: "\<forall>l \<in> set (listeners s). fst (snd l) \<noteq> fresh s"
    and b: "\<forall>l \<in> set (listeners s). fst (snd l) \<noteq> Suc (fresh s)"
    using wf_fresh(3) [OF assms] by simp_all
  define s1 where "s1 = (case circle s of Some c \<Rightarrow> (detach c s)\<lparr>circle := None\<rparr> | None \<Rightarrow> s)"
  define s2 where "s2 = (case styleSheet s1 of Some e \<Rightarrow> (detach e s1)\<lparr>styleSheet := None\<rparr> | None \<Rightarrow> s1)"
  have l2: "listeners s2 = listeners s" and f2: "fresh s2 = fresh s"
    by (simp_all add: s1_def s2_def split: option.splits)
  have r1: "removeEventListener ''resize'' (fresh s) (s2\<lparr>fresh := Suc (fresh s)\<rparr>) = s2\<lparr>fresh := Suc (fresh s)\<rparr>"
    by (rule removeEventListener_absent) (simp add: l2 a)
  have r2: "removeEventListener ''scroll'' (Suc (fresh s)) (s2\<lparr>fresh := Suc (Suc (fresh s))\<rparr>) = s2\<lparr>fresh := Suc (Suc (fresh s))\<rparr>"
    by (rule removeEventListener_absent) (simp add: l2 b)
  have "destroyCircle s = s2\<lparr>fresh := Suc (Suc (fresh s))\<rparr>"
    by (simp add: destroyCircle_def Let_def split_def s1_def [symmetric] s2_def [symmetric] f2 r1 r2)
  then show ?thesis by (simp add: l2)
qed

lemma inv_init: "init s0 \<Longrightarrow> run_inv s0 s0"
  by (simp add: run_inv_def init_def handle_def)

lemma inv_wf: "run_inv s0 s \<Longrightarrow> well_formed s"
  by (simp add: run_inv_def)

lemma inv_showCircle:
  assumes "run_inv s0 s"
  shows "run_inv s0 (showCircle t c s)"
proof (cases "circle s")
  case None
  from assms have w: "well_formed s" and ss: "styleSheet s = None"
    and b: "body s = body s0" and h: "head s = head s0"
    using None by (simp_all add: run_inv_def handle_def)
  note cr = showCircle_create [OF None ss w, where t = t and c = c]
  note f = wf_fresh [OF w]
  have "well_formed (showCircle t c s)"
    using w by (auto simp: well_formed_def cr)
  moreover have "fresh s \<notin> set (body s0)" "fresh s \<notin> set (head s0)"
    "Suc (fresh s) \<notin> set (body s0)" "Suc (fresh s) \<notin> set (head s0)"
    using f(1,2) [of "fresh s"] f(1,2) [of "Suc (fresh s)"] by (simp_all add: b h)
  ultimately show ?thesis
    by (simp add: run_inv_def cr handle_def b h)
next
  case (Some r)
  note ex = showCircle_existing [OF Some, where t = t and c = c]
  from assms Some show ?thesis
    by (auto simp: run_inv_def ex well_formed_def)
qed

lemma inv_hideCircle: "run_inv s0 s \<Longrightarrow> run_inv s0 (hideCircle s)"
  by (simp add: run_inv_def well_formed_def)

lemma inv_fire: "run_inv s0 s \<Longrightarrow> run_inv s0 (fire ev s)"
  by (simp add: run_inv_def well_formed_def)

lemma inv_relayout: "run_inv s0 s \<Longrightarrow> run_inv s0 (s\<lparr>bounds := b\<rparr>)"
  by (simp add: run_inv_def well_formed_def)

lemma inv_destroyCircle:
  assumes "run_inv s0 s"
  shows "run_inv s0 (destroyCircle s)"
proof -
  from assms have w: "well_formed s" by (rule inv_wf)
  have b: "body (destroyCircle s) = body s0"
    using assms
    by (cases "circle s"; cases "styleSheet s")
       (auto simp: destroyCircle_body run_inv_def handle_def intro: filter_True [THEN trans])
  have h: "head (destroyCircle s) = head s0"
    using assms
    by (cases "circle s"; cases "styleSheet s")
       (auto simp: destroyCircle_head run_inv_def handle_def intro: filter_True [THEN trans])
  have lt: "\<And>x. x \<in> set (body s0) \<Longrightarrow> x < fresh s"
    "\<And>x. x \<in> set (head s0) \<Longrightarrow> x < fresh s"
    "\<And>l. l \<in> set (listeners s) \<Longrightarrow> fst (snd l) < fresh s"
    using w assms by (auto simp: well_formed_def run_inv_def)
  have "well_formed (destroyCircle s)"
    by (auto simp: well_formed_def b h destroyCircle_listeners [OF w] dest: lt)
  then show ?thesis
    by (simp add: run_inv_def b h handle_def)
qed

lemma inv_step: "run_inv s0 s \<Longrightarrow> run_inv s0 (step x s)"
  by (cases x) (simp_all add: inv_showCircle inv_hideCircle inv_destroyCircle inv_fire inv_relayout)

lemma inv_run: "run_inv s0 s \<Longrightarrow> run_inv s0 (run xs s)"
  by (induction xs arbitrary: s) (simp_all add: inv_step)

lemma init_run: "init s0 \<Longrightarrow> run_inv s0 (run xs s0)"
  by (simp add: inv_init inv_run)

lemma example_init: "init example_page"
  by (simp add: init_def well_formed_def example_page_def)

lemma showCircle_present:
  assumes "run_inv s0 s"
  shows "\<exists>r. circle (showCircle t c s) = Some r"
proof (cases "circle s")
  case None
  with assms have "styleSheet s = None" and "well_formed s"
    by (simp_all add: run_inv_def)
  from showCircle_create(1) [OF None this] show ?thesis by blast
next
  case (Some r)
  then show ?thesis by (simp add: showCircle_existing)
qed

section \<open>What a show call leaves in the style of the indicator\<close>

lemma showCircle_create_circle:
  "circle s = None \<Longrightarrow> circle (showCircle t c s) = Some (fresh (addGlowAnimationStyles s))"
  by (simp add: showCircle_def createGlowingMovingCircle_def Let_def split_def)

lemma showCircle_create_style:
  assumes "circle s = None"
  shows "style (elems (showCircle t c s) (fresh (addGlowAnimationStyles s))) p =
     (if p = Top then Px (rect_top (bounds s t) + rect_height (bounds s t) / 2)
      else if p = Left_prop then Px (rect_left (bounds s t) + rect_width (bounds s t) / 2)
      else style (elems (snd (createCircleElement
                     (Some (case c of None \<Rightarrow> ''BLUE'' | Some v \<Rightarrow> v)) (addGlowAnimationStyles s)))
                   (fresh (addGlowAnimationStyles s))) p)"
  using assms
  by (simp add: showCircle_def createGlowingMovingCircle_def Let_def split_def
      updateCirclePosition_style)

lemma circle_style_create:
  assumes "circle s = None"
  shows "circle_style (showCircle t c s) Display = Some (Str ''flex'')"
    and "circle_style (showCircle t c s) Transform = Some (Str ''translate(-50%, -50%)'')"
    and "circle_style (showCircle t c s) Top =
           Some (Px (rect_top (bounds s t) + rect_height (bounds s t) / 2))"
    and "circle_style (showCircle t c s) Left_prop =
           Some (Px (rect_left (bounds s t) + rect_width (bounds s t) / 2))"
    and "circle_style (showCircle t (Some v) s) Background =
           Some (Str (if v = ''PURPLE'' then ''radial-gradient(circle, #9c27b0, #6a0080)''
                      else if v = ''GRAY'' then ''radial-gradient(circle, #c0c0c0, #808080)''
                      else ''radial-gradient(circle, #5f9eff, #003f9f)''))"
    and "circle_style (showCircle t (Some v) s) BoxShadow =
           Some (Str (if v = ''PURPLE''
             then ''0 0 15px 5px rgba(156, 39, 176, 0.6), 0 0 30px 15px rgba(106, 0, 128, 0.3)''
             else if v = ''GRAY''
             then ''0 0 15px 5px rgba(192,192,192,0.5), 0 0 30px 15px rgba(128,128,128,0.3)''
             else ''0 0 15px 5px rgba(0, 63, 159, 0.5), 0 0 30px 15px rgba(0, 63, 159, 0.3)''))"
  by (simp_all only: circle_style_def showCircle_create_circle [OF assms] option.case
      showCircle_create_style [OF assms] createCircleElement_style
      createCircleElement_Background createCircleElement_BoxShadow)
     simp_all

lemma showCircle_existing_style:
  assumes "circle s = Some r"
  shows "style (elems (showCircle t c s) r) p =
     (if p = Top then Px (rect_top (bounds s t) + rect_height (bounds s t) / 2)
      else if p = Left_prop then Px (rect_left (bounds s t) + rect_width (bounds s t) / 2)
      else if p = Background
      then Str (if (case c of None \<Rightarrow> ''BLUE'' | Some v \<Rightarrow> v) = ''PURPLE''
                then ''radial-gradient(circle, #9c27b0, #6a0080)''
                else if (case c of None \<Rightarrow> ''BLUE'' | Some v \<Rightarrow> v) = ''GRAY''
                then ''radial-gradient(circle, #c0c0c0, #808080)''
                else ''radial-gradient(circle, #5f9eff, #003f9f)'')
      else if p = Display then Str ''flex''
      else style (elems s r) p)"
  using assms
  by (simp add: showCircle_def Let_def updateCirclePosition_style)

section \<open>The transform of the indicator, and the example page after a show\<close>

lemma call_style_other:
  "p \<noteq> Top \<Longrightarrow> p \<noteq> Left_prop \<Longrightarrow> style (elems (call c s) r) p = style (elems s r) p"
  by (cases c) (simp_all add: updateCirclePosition_style)

lemma dispatch_style_other:
  "p \<noteq> Top \<Longrightarrow> p \<noteq> Left_prop \<Longrightarrow>
   style (elems (foldl (\<lambda>s (e, i, c). if e = ev then call c s else s) s xs) r) p =
   style (elems s r) p"
  by (induction xs arbitrary: s) (simp_all add: split_def call_style_other)

lemma fire_style_other:
  "p \<noteq> Top \<Longrightarrow> p \<noteq> Left_prop \<Longrightarrow> style (elems (fire ev s) r) p = style (elems s r) p"
  by (simp add: fire_def dispatch_style_other)

lemma hideCircle_style:
  "style (elems (hideCircle s) r) p =
     (if circle s = Some r \<and> p = Display then Str ''none'' else style (elems s r) p)"
  by (auto simp: hideCircle_def split: option.splits)

lemma translated_step:
  assumes "\<forall>r. circle s = Some r \<longrightarrow> style (elems s r) Transform = Str ''translate(-50%, -50%)''"
  shows "\<forall>r. circle (step x s) = Some r \<longrightarrow>
           style (elems (step x s) r) Transform = Str ''translate(-50%, -50%)''"
proof (cases x)
  case (Show t c)
  show ?thesis
  proof (cases "circle s")
    case None
    from circle_style_create(2) [OF None, of t c] show ?thesis
      by (simp add: Show circle_style_def split: option.splits)
  next
    case (Some r)
    with assms show ?thesis
      by (simp add: Show showCircle_existing(1) showCircle_existing_style)
  qed
next
  case Hide
  with assms show ?thesis by (simp add: hideCircle_style)
next
  case Destroy
  then show ?thesis by simp
next
  case (Fire ev)
  with assms show ?thesis by (simp add: fire_style_other)
next
  case (Relayout b)
  with assms show ?thesis by simp
qed

lemma translated_run:
  assumes "\<forall>r. circle s = Some r \<longrightarrow> style (elems s r) Transform = Str ''translate(-50%, -50%)''"
  shows "\<forall>r. circle (run xs s) = Some r \<longrightarrow>
           style (elems (run xs s) r) Transform = Str ''translate(-50%, -50%)''"
  using assms
proof (induction xs arbitrary: s)
  case Nil
  then show ?case by simp
next
  case (Cons x xs)
  from Cons.IH [OF translated_step [OF Cons.prems]] show ?case by simp
qed

lemma example_shown:
  "circle (showCircle t c example_page) = Some 4"
  "styleSheet (showCircle t c example_page) = Some 3"
  "fresh (showCircle t c example_page) = 8"
  "body (showCircle t c example_page) = [1, 2, 4]"
  "head (showCircle t c example_page) = [0, 3]"
  "listeners (showCircle t c example_page) = [(''resize'', 6, Recompute t), (''scroll'', 7, Recompute t)]"
  "bounds (showCircle t c example_page) = bounds example_page"
  using showCircle_create [OF _ _ inv_wf [OF inv_init [OF example_init]], of t c]
  by (simp_all add: example_page_def)

section \<open>Steps that keep the style registration\<close>

lemma inv_handles_allocated:
  assumes "run_inv s0 s"
  shows "circle s = Some r \<Longrightarrow> r < fresh s" and "styleSheet s = Some e \<Longrightarrow> e < fresh s"
  using assms by (auto simp: run_inv_def well_formed_def handle_def)

lemma destroyCircle_absent:
  assumes "circle s = None" and "styleSheet s = None" and "well_formed s"
  shows "destroyCircle s = s\<lparr>fresh := fresh s + 2\<rparr>"
proof -
  have a: "\<forall>l \<in> set (listeners s). fst (snd l) \<noteq> fresh s"
    and b: "\<forall>l \<in> set (listeners s). fst (snd l) \<noteq> Suc (fresh s)"
    using wf_fresh(3) [OF assms(3)] by simp_all
  have r1: "removeEventListener ''resize'' (fresh s) (s\<lparr>fresh := Suc (fresh s)\<rparr>) = s\<lparr>fresh := Suc (fresh s)\<rparr>"
    by (rule removeEventListener_absent) (simp add: a)
  have r2: "removeEventListener ''scroll'' (Suc (fresh s)) (s\<lparr>fresh := Suc (Suc (fresh s))\<rparr>) =
              s\<lparr>fresh := Suc (Suc (fresh s))\<rparr>"
    by (rule removeEventListener_absent) (simp add: b)
  show ?thesis
    using assms(1,2) by (simp add: destroyCircle_def Let_def split_def r1 r2)
qed

lemma step_keeps_styleSheet:
  assumes "run_inv s0 s" and "styleSheet s = Some e" and "x \<noteq> Destroy"
  shows "styleSheet (step x s) = Some e \<and> head (step x s) = head s \<and> elems (step x s) e = elems s e"
proof -
  from assms(1,2) obtain r where r: "circle s = Some r" and ne: "e \<noteq> r"
    by (cases "circle s") (auto simp: run_inv_def)
  then have n: "circle s \<noteq> Some e" by simp
  show ?thesis
  proof (cases x)
    case (Show t c)
    then show ?thesis
      using assms(2) ne by (simp add: showCircle_existing [OF r])
  next
    case Hide
    then show ?thesis using assms(2) n by (simp add: hideCircle_other)
  next
    case Destroy
    with assms(3) show ?thesis by simp
  next
    case (Fire ev)
    then show ?thesis using assms(2) n by (simp add: fire_other)
  next
    case (Relayout b)
    then show ?thesis using assms(2) by simp
  qed
qed

lemma step_keeps_no_styleSheet:
  assumes "styleSheet s = None" and "\<forall>t c. x \<noteq> Show t c"
  shows "styleSheet (step x s) = None"
  using assms by (cases x) simp_all

section \<open>Listeners along a run, and where an event puts the indicator\<close>

lemma step_listeners_grow:
  assumes "run_inv s0 s"
  shows "\<exists>zs. listeners (step x s) = listeners s @ zs"
proof (cases x)
  case (Show t c)
  show ?thesis
  proof (cases "circle s")
    case None
    with assms have "styleSheet s = None" and "well_formed s"
      by (simp_all add: run_inv_def)
    from showCircle_create(6) [OF None this, of t c] show ?thesis
      by (simp add: Show)
  next
    case (Some r)
    then show ?thesis by (simp add: Show showCircle_existing)
  qed
next
  case Destroy
  then show ?thesis
    using destroyCircle_listeners [OF inv_wf [OF assms]] by simp
qed simp_all

lemma run_listeners_grow:
  assumes "run_inv s0 s"
  shows "\<exists>zs. listeners (run xs s) = listeners s @ zs"
  using assms
proof (induction xs arbitrary: s)
  case Nil
  then show ?case by simp
next
  case (Cons x xs)
  from step_listeners_grow [OF Cons.prems] obtain zs
    where a: "listeners (step x s) = listeners s @ zs" by blast
  from Cons.IH [OF inv_step [OF Cons.prems]] obtain zs'
    where b: "listeners (run xs (step x s)) = listeners (step x s) @ zs'" by blast
  from a b show ?case by simp
qed

lemma step_keeps_handle:
  assumes "circle s = Some r" and "x \<noteq> Destroy"
  shows "circle (step x s) = Some r" and "listeners (step x s) = listeners s"
  using assms by (cases x; simp add: showCircle_existing)+

lemma run_keeps_handle:
  assumes "circle s = Some r" and "Destroy \<notin> set xs"
  shows "circle (run xs s) = Some r \<and> listeners (run xs s) = listeners s"
  using assms
proof (induction xs arbitrary: s)
  case Nil
  then show ?case by simp
next
  case (Cons x xs)
  from Cons.prems have x: "x \<noteq> Destroy" and xs: "Destroy \<notin> set xs"
    by auto
  from Cons.IH [OF step_keeps_handle(1) [OF Cons.prems(1) x] xs]
    step_keeps_handle(2) [OF Cons.prems(1) x]
  show ?case by simp
qed

lemma showCircle_bounds: "bounds (showCircle t c s) = bounds s"
  by (cases "circle s")
     (simp_all add: showCircle_def createGlowingMovingCircle_def Let_def split_def)

lemma position_update:
  "circle s = Some r \<Longrightarrow> position (updateCirclePosition t s) = Some (centre (bounds s t))"
  by (simp add: position_def centre_def updateCirclePosition_style)

lemma position_fire:
  assumes "circle s = Some r"
    and "listeners s = pre @ [(''resize'', i, Recompute t), (''scroll'', j, Recompute t)]"
    and "ev = ''resize'' \<or> ev = ''scroll''"
  shows "position (fire ev s) = Some (centre (bounds s t))"
proof -
  let ?f = "\<lambda>s (e, i, c). if e = ev then call c s else s"
  let ?p = "foldl ?f s pre"
  have c: "circle ?p = Some r" and b: "bounds ?p = bounds s"
    using assms(1) by (simp_all add: dispatch_simps)
  have "fire ev s = updateCirclePosition t ?p"
    using assms(3) by (auto simp: fire_def assms(2))
  then show ?thesis
    using position_update [OF c, of t] by (simp add: b)
qed

lemma position_show:
  "position (showCircle t c s) = Some (centre (bounds s t))"
proof (cases "circle s")
  case None
  then show ?thesis
    by (simp add: position_def centre_def showCircle_create_circle showCircle_create_style)
next
  case (Some r)
  then show ?thesis
    by (simp add: position_def centre_def showCircle_existing(1) showCircle_existing_style)
qed

lemma example_destroyed:
  "body (destroyCircle (showCircle t c example_page)) = [1, 2]"
  "head (destroyCircle (showCircle t c example_page)) = [0]"
  using inv_destroyCircle [OF inv_showCircle [OF inv_init [OF example_init]], of t c]
  by (simp_all add: run_inv_def handle_def) (simp_all add: example_page_def)

section \<open>The elements a creating show makes, and where the indicator is drawn\<close>

lemma glow_keyframes_length: "length glow_keyframes = 476"
  by (simp add: glow_keyframes_def)

lemma createElement_new:
  "x = fresh s \<Longrightarrow>
   elems (snd (createElement t s)) x =
     \<lparr>tag = t, style = (\<lambda>_. Str []), innerHTML = [], type_attr = [], children = []\<rparr>"
  by (simp add: createElement_def)

lemma setStyle_fields:
  "tag (elems (setStyle r p v s) x) = tag (elems s x)"
  "innerHTML (elems (setStyle r p v s) x) = innerHTML (elems s x)"
  "type_attr (elems (setStyle r p v s) x) = type_attr (elems s x)"
  "children (elems (setStyle r p v s) x) = children (elems s x)"
  by (simp_all add: setStyle_def)

lemma setInnerHTML_fields:
  "tag (elems (setInnerHTML r v s) x) = tag (elems s x)"
  "innerHTML (elems (setInnerHTML r v s) x) = (if x = r then v else innerHTML (elems s x))"
  "type_attr (elems (setInnerHTML r v s) x) = type_attr (elems s x)"
  "children (elems (setInnerHTML r v s) x) = children (elems s x)"
  by (simp_all add: setInnerHTML_def)

lemma setType_fields:
  "tag (elems (setType r v s) x) = tag (elems s x)"
  "innerHTML (elems (setType r v s) x) = innerHTML (elems s x)"
  "type_attr (elems (setType r v s) x) = (if x = r then v else type_attr (elems s x))"
  "children (elems (setType r v s) x) = children (elems s x)"
  by (simp_all add: setType_def)

lemma detach_fields:
  "tag (elems (detach y s) x) = tag (elems s x)"
  "innerHTML (elems (detach y s) x) = innerHTML (elems s x)"
  "type_attr (elems (detach y s) x) = type_attr (elems s x)"
  "children (elems (detach y s) x) = removeAll y (children (elems s x))"
  by (simp_all add: detach_def)

lemma appendChild_fields:
  "tag (elems (appendChild p y s) x) = tag (elems s x)"
  "innerHTML (elems (appendChild p y s) x) = innerHTML (elems s x)"
  "type_attr (elems (appendChild p y s) x) = type_attr (elems s x)"
  "children (elems (appendChild p y s) x) =
     removeAll y (children (elems s x)) @ (if p = Element x then [y] else [])"
  by (auto simp: appendChild_def Let_def detach_fields split: node.splits)

lemma updateCirclePosition_fields:
  "tag (elems (updateCirclePosition t s) x) = tag (elems s x)"
  "innerHTML (elems (updateCirclePosition t s) x) = innerHTML (elems s x)"
  "type_attr (elems (updateCirclePosition t s) x) = type_attr (elems s x)"
  "children (elems (updateCirclePosition t s) x) = children (elems s x)"
  by (simp_all add: updateCirclePosition_def Let_def setStyle_fields split: option.splits)

lemma createCircleElement_new:
  assumes "x = fresh s"
  shows "tag (elems (snd (createCircleElement c s)) x) = ''div''"
    and "children (elems (snd (createCircleElement c s)) x) = []"
    and "style (elems (snd (createCircleElement c s)) x) Width = Str ''60px''"
    and "style (elems (snd (createCircleElement c s)) x) Height = Str ''60px''"
    and "style (elems (snd (createCircleElement c s)) x) BorderRadius = Str ''50%''"
    and "style (elems (snd (createCircleElement c s)) x) Position = Str ''absolute''"
    and "style (elems (snd (createCircleElement c s)) x) Transform = Str ''translate(-50%, -50%)''"
    and "style (elems (snd (createCircleElement c s)) x) Display = Str ''flex''"
    and "style (elems (snd (createCircleElement c s)) x) AlignItems = Str ''center''"
    and "style (elems (snd (createCircleElement c s)) x) JustifyContent = Str ''center''"
    and "style (elems (snd (createCircleElement c s)) x) Animation = Str ''glow-right 2s infinite''"
    and "style (elems (snd (createCircleElement c s)) x) PointerEvents = Str ''none''"
    and "style (elems (snd (createCircleElement c s)) x) ZIndex = Str ''9999''"
    and "style (elems (snd (createCircleElement (Some v) s)) x) Background =
           Str (if v = ''PURPLE'' then ''radial-gradient(circle, #9c27b0, #6a0080)''
                else if v = ''GRAY'' then ''radial-gradient(circle, #c0c0c0, #808080)''
                else ''radial-gradient(circle, #5f9eff, #003f9f)'')"
    and "style (elems (snd (createCircleElement (Some v) s)) x) BoxShadow =
           Str (if v = ''PURPLE''
                then ''0 0 15px 5px rgba(156, 39, 176, 0.6), 0 0 30px 15px rgba(106, 0, 128, 0.3)''
                else if v = ''GRAY''
                then ''0 0 15px 5px rgba(192,192,192,0.5), 0 0 30px 15px rgba(128,128,128,0.3)''
                else ''0 0 15px 5px rgba(0, 63, 159, 0.5), 0 0 30px 15px rgba(0, 63, 159, 0.3)'')"
  unfolding assms
  by (simp_all add: createCircleElement_def Let_def split_def setStyle_fields createElement_new)

lemma createIconElement_new:
  assumes "x = fresh s"
  shows "tag (elems (snd (createIconElement s)) x) = ''div''"
    and "innerHTML (elems (snd (createIconElement s)) x) = [CHR 0xE2, CHR 0x9C, CHR 0xA6]"
    and "children (elems (snd (createIconElement s)) x) = []"
    and "style (elems (snd (createIconElement s)) x) FontSize = Str ''24px''"
    and "style (elems (snd (createIconElement s)) x) Color = Str ''white''"
  unfolding assms
  by (simp_all add: createIconElement_def Let_def split_def setStyle_fields setInnerHTML_fields
      createElement_new)

lemma addGlowAnimationStyles_new:
  assumes "styleSheet s = None" and "x = fresh s"
  shows "tag (elems (addGlowAnimationStyles s) x) = ''style''"
    and "type_attr (elems (addGlowAnimationStyles s) x) = ''text/css''"
    and "innerHTML (elems (addGlowAnimationStyles s) x) = glow_keyframes"
  using assms
  by (simp_all add: addGlowAnimationStyles_def Let_def split_def appendChild_fields
      setInnerHTML_fields setType_fields createElement_new)

lemma showCircle_create_elements:
  assumes "circle s = None" and "styleSheet s = None"
  shows "tag (elems (showCircle t c s) (fresh s)) = ''style''"
    and "type_attr (elems (showCircle t c s) (fresh s)) = ''text/css''"
    and "innerHTML (elems (showCircle t c s) (fresh s)) = glow_keyframes"
    and "tag (elems (showCircle t c s) (Suc (fresh s))) = ''div''"
    and "children (elems (showCircle t c s) (Suc (fresh s))) = [Suc (Suc (fresh s))]"
    and "tag (elems (showCircle t c s) (Suc (Suc (fresh s)))) = ''div''"
    and "innerHTML (elems (showCircle t c s) (Suc (Suc (fresh s)))) = [CHR 0xE2, CHR 0x9C, CHR 0xA6]"
    and "style (elems (showCircle t c s) (Suc (Suc (fresh s)))) FontSize = Str ''24px''"
    and "style (elems (showCircle t c s) (Suc (Suc (fresh s)))) Color = Str ''white''"
  using assms
  by (simp_all add: showCircle_def createGlowingMovingCircle_def Let_def split_def
      addGlowAnimationStyles_absent addGlowAnimationStyles_new appendChild_fields
      updateCirclePosition_fields updateCirclePosition_style
      createCircleElement_new createIconElement_new)

lemma showCircle_create_styles:
  assumes "circle s = None" and "styleSheet s = None"
    and "col = (case c of None \<Rightarrow> ''BLUE'' | Some v \<Rightarrow> v)"
  shows "map (style (elems (showCircle t c s) (Suc (fresh s))))
           [Width, Height, Background, BorderRadius, Position, Transform, Display, AlignItems,
            JustifyContent, BoxShadow, Animation, PointerEvents, ZIndex] =
           [Str ''60px'', Str ''60px'',
            Str (if col = ''PURPLE'' then ''radial-gradient(circle, #9c27b0, #6a0080)''
                 else if col = ''GRAY'' then ''radial-gradient(circle, #c0c0c0, #808080)''
                 else ''radial-gradient(circle, #5f9eff, #003f9f)''),
            Str ''50%'', Str ''absolute'', Str ''translate(-50%, -50%)'', Str ''flex'',
            Str ''center'', Str ''center'',
            Str (if col = ''PURPLE''
                 then ''0 0 15px 5px rgba(156, 39, 176, 0.6), 0 0 30px 15px rgba(106, 0, 128, 0.3)''
                 else if col = ''GRAY''
                 then ''0 0 15px 5px rgba(192,192,192,0.5), 0 0 30px 15px rgba(128,128,128,0.3)''
                 else ''0 0 15px 5px rgba(0, 63, 159, 0.5), 0 0 30px 15px rgba(0, 63, 159, 0.3)''),
            Str ''glow-right 2s infinite'', Str ''none'', Str ''9999'']"
    and "style (elems (showCircle t c s) (Suc (fresh s))) Top =
           Px (rect_top (bounds s t) + rect_height (bounds s t) / 2)"
    and "style (elems (showCircle t c s) (Suc (fresh s))) Left_prop =
           Px (rect_left (bounds s t) + rect_width (bounds s t) / 2)"
proof -
  have f: "fresh (addGlowAnimationStyles s) = Suc (fresh s)"
    using assms(2) by (rule addGlowAnimationStyles_absent)
  note st = showCircle_create_style [OF assms(1), of t c, unfolded f, folded assms(3)]
  note ce = createCircleElement_new [OF f [symmetric]]
  show "map (style (elems (showCircle t c s) (Suc (fresh s))))
           [Width, Height, Background, BorderRadius, Position, Transform, Display, AlignItems,
            JustifyContent, BoxShadow, Animation, PointerEvents, ZIndex] =
           [Str ''60px'', Str ''60px'',
            Str (if col = ''PURPLE'' then ''radial-gradient(circle, #9c27b0, #6a0080)''
                 else if col = ''GRAY'' then ''radial-gradient(circle, #c0c0c0, #808080)''
                 else ''radial-gradient(circle, #5f9eff, #003f9f)''),
            Str ''50%'', Str ''absolute'', Str ''translate(-50%, -50%)'', Str ''flex'',
            Str ''center'', Str ''center'',
            Str (if col = ''PURPLE''
                 then ''0 0 15px 5px rgba(156, 39, 176, 0.6), 0 0 30px 15px rgba(106, 0, 128, 0.3)''
                 else if col = ''GRAY''
                 then ''0 0 15px 5px rgba(192,192,192,0.5), 0 0 30px 15px rgba(128,128,128,0.3)''
                 else ''0 0 15px 5px rgba(0, 63, 159, 0.5), 0 0 30px 15px rgba(0, 63, 159, 0.3)''),
            Str ''glow-right 2s infinite'', Str ''none'', Str ''9999'']"
    by (simp add: st ce)
  show "style (elems (showCircle t c s) (Suc (fresh s))) Top =
           Px (rect_top (bounds s t) + rect_height (bounds s t) / 2)"
    by (simp add: st)
  show "style (elems (showCircle t c s) (Suc (fresh s))) Left_prop =
           Px (rect_left (bounds s t) + rect_width (bounds s t) / 2)"
    by (simp add: st)
qed

lemma updateCirclePosition_centre:
  assumes "circle s = Some r"
  shows "style (elems (updateCirclePosition t s) r) Top =
           Px (rect_top (bounds s t) + rect_height (bounds s t) / 2)"
    and "style (elems (updateCirclePosition t s) r) Left_prop =
           Px (rect_left (bounds s t) + rect_width (bounds s t) / 2)"
  using assms by (simp_all add: updateCirclePosition_style)

lemma rendered_centre_update:
  assumes "circle s = Some r" and "r \<in> set (body s)"
    and "style (elems s r) Display \<noteq> Str ''none''"
    and "style (elems s r) Transform = Str ''translate(-50%, -50%)''"
    and "style (elems s r) Position = Str ''absolute''"
  shows "rendered_centre w (updateCirclePosition t s) =
           Some (fst (box_centre (bounds s t)) - scrollY w, snd (box_centre (bounds s t)) - scrollX w)"
  using assms
  by (simp add: rendered_centre_def box_centre_def updateCirclePosition_style)

lemma example_shown_style:
  "style (elems (showCircle t c example_page) 4) Display = Str ''flex''"
  "style (elems (showCircle t c example_page) 4) Transform = Str ''translate(-50%, -50%)''"
  "style (elems (showCircle t c example_page) 4) Position = Str ''absolute''"
  "style (elems (showCircle t c example_page) 4) Top =
     Px (rect_top (bounds example_page t) + rect_height (bounds example_page t) / 2)"
  "style (elems (showCircle t c example_page) 4) Left_prop =
     Px (rect_left (bounds example_page t) + rect_width (bounds example_page t) / 2)"
  using showCircle_create_styles [of example_page _ c t, OF _ _ refl]
  by (simp_all add: example_page_def)

section \<open>The claims\<close>

text \<open>
  C1. In every run of the module from its initial state, the body of the document is what
  the page held at the start followed by the element of the handle, if there is one: at
  most one indicator element is attached at a time. A \<^verbatim>\<open>showCircle\<close> that finds
  the handle present creates no object (the allocation counter stays) and attaches
  nothing (body, head and the children of every element stay), and after two successive
  \<^verbatim>\<open>showCircle\<close> calls the body holds exactly one element more than the page did,
  the one the handle refers to.
\<close>

theorem single_indicator:
  assumes "init s0" and "s = run xs s0"
  shows "body s = body s0 @ handle (circle s) \<and>
         (\<forall>r. circle s = Some r \<longrightarrow>
            r \<notin> set (body s0) \<and>
            circle (showCircle t c s) = Some r \<and>
            fresh (showCircle t c s) = fresh s \<and>
            body (showCircle t c s) = body s \<and>
            head (showCircle t c s) = head s \<and>
            (\<forall>x. children (elems (showCircle t c s) x) = children (elems s x))) \<and>
         (\<exists>r. r \<notin> set (body s0) \<and>
            circle (showCircle t' c' (showCircle t c s)) = Some r \<and>
            body (showCircle t' c' (showCircle t c s)) = body s0 @ [r])"
proof -
  have i: "run_inv s0 s"
    using assms by (simp add: init_run)
  have one: "body s = body s0 @ handle (circle s)"
    using i by (simp add: run_inv_def)
  have two: "\<forall>r. circle s = Some r \<longrightarrow>
            r \<notin> set (body s0) \<and>
            circle (showCircle t c s) = Some r \<and>
            fresh (showCircle t c s) = fresh s \<and>
            body (showCircle t c s) = body s \<and>
            head (showCircle t c s) = head s \<and>
            (\<forall>x. children (elems (showCircle t c s) x) = children (elems s x))"
    using i by (simp add: run_inv_def showCircle_existing showCircle_existing_children)
  have i1: "run_inv s0 (showCircle t c s)"
    using i by (rule inv_showCircle)
  then obtain r where r: "circle (showCircle t c s) = Some r"
    using showCircle_present [OF i] by blast
  have i2: "run_inv s0 (showCircle t' c' (showCircle t c s))"
    using i1 by (rule inv_showCircle)
  have c2: "circle (showCircle t' c' (showCircle t c s)) = Some r"
    using r by (simp add: showCircle_existing)
  have "r \<notin> set (body s0)"
    using i1 r by (simp add: run_inv_def)
  moreover have "body (showCircle t' c' (showCircle t c s)) = body s0 @ [r]"
    using i2 c2 by (simp add: run_inv_def handle_def)
  ultimately show ?thesis
    using one two c2 by blast
qed

theorem single_indicator_witness:
  "init example_page \<and>
   body (run [Show 1 None, Show 1 None] example_page) = [1, 2, 4] \<and>
   circle (run [Show 1 None, Show 1 None] example_page) = Some 4"
proof -
  have a: "circle (showCircle 1 None example_page) = Some 4"
    and b: "body (showCircle 1 None example_page) = [1, 2, 4]"
    using showCircle_create(1,4) [OF _ _ inv_wf [OF inv_init [OF example_init]], of 1 None]
    by (simp_all add: example_page_def)
  from single_indicator [OF example_init refl, where xs = "[Show 1 None]" and t = 1 and c = None]
    a b example_init
  show ?thesis
    by simp
qed

text \<open>
  C2. When the handle exists, \<^verbatim>\<open>showCircle(t, v)\<close> sets the background of the
  indicator to the gradient of \<open>v\<close>, its position to the centre of the bounding box
  of \<open>t\<close> and its display to \<^verbatim>\<open>flex\<close>, and leaves its box-shadow as it was before
  the call.
\<close>

theorem reshow_keeps_glow:
  assumes "circle s = Some r"
  shows "style (elems (showCircle t (Some v) s) r) Background =
           Str (if v = ''PURPLE'' then ''radial-gradient(circle, #9c27b0, #6a0080)''
                else if v = ''GRAY'' then ''radial-gradient(circle, #c0c0c0, #808080)''
                else ''radial-gradient(circle, #5f9eff, #003f9f)'') \<and>
         style (elems (showCircle t (Some v) s) r) Top =
           Px (rect_top (bounds s t) + rect_height (bounds s t) / 2) \<and>
         style (elems (showCircle t (Some v) s) r) Left_prop =
           Px (rect_left (bounds s t) + rect_width (bounds s t) / 2) \<and>
         style (elems (showCircle t (Some v) s) r) Display = Str ''flex'' \<and>
         style (elems (showCircle t (Some v) s) r) BoxShadow = style (elems s r) BoxShadow"
proof -
  let ?g = "if v = ''PURPLE'' then ''radial-gradient(circle, #9c27b0, #6a0080)''
            else if v = ''GRAY'' then ''radial-gradient(circle, #c0c0c0, #808080)''
            else ''radial-gradient(circle, #5f9eff, #003f9f)''"
  let ?s1 = "setStyle r Display (Str ''flex'') s"
  let ?s2 = "setStyle r Background (Str ?g) ?s1"
  have branch: "showCircle t (Some v) s = updateCirclePosition t ?s2"
    using assms by (simp add: showCircle_def)
  have handle_kept: "circle ?s2 = Some r" and layout_kept: "bounds ?s2 = bounds s"
    using assms by simp_all
  have written: "style (elems ?s2 r) Background = Str ?g" "style (elems ?s2 r) Display = Str ''flex''"
    by simp_all
  have glow: "style (elems ?s2 r) BoxShadow = style (elems s r) BoxShadow"
    by simp
  show ?thesis
    unfolding branch
    by (simp only: updateCirclePosition_style handle_kept layout_kept written glow) simp
qed

theorem reshow_keeps_glow_witness:
  "circle (showCircle 1 (Some ''BLUE'') example_page) = Some 4 \<and>
   style (elems (showCircle 2 (Some ''PURPLE'') (showCircle 1 (Some ''BLUE'') example_page)) 4)
     Background = Str ''radial-gradient(circle, #9c27b0, #6a0080)'' \<and>
   style (elems (showCircle 2 (Some ''PURPLE'') (showCircle 1 (Some ''BLUE'') example_page)) 4)
     Top = Px 315 \<and>
   style (elems (showCircle 2 (Some ''PURPLE'') (showCircle 1 (Some ''BLUE'') example_page)) 4)
     Left_prop = Px 35 \<and>
   style (elems (showCircle 2 (Some ''PURPLE'') (showCircle 1 (Some ''BLUE'') example_page)) 4)
     BoxShadow = Str ''0 0 15px 5px rgba(0, 63, 159, 0.5), 0 0 30px 15px rgba(0, 63, 159, 0.3)''"
proof -
  have c: "circle (showCircle 1 (Some ''BLUE'') example_page) = Some 4"
    by (rule example_shown)
  have g: "style (elems (showCircle 1 (Some ''BLUE'') example_page) 4) BoxShadow =
             Str ''0 0 15px 5px rgba(0, 63, 159, 0.5), 0 0 30px 15px rgba(0, 63, 159, 0.3)''"
    using circle_style_create(6) [of example_page 1 "''BLUE''"]
    by (simp add: circle_style_def example_shown) (simp add: example_page_def)
  have b: "bounds (showCircle 1 (Some ''BLUE'') example_page) 2 =
             \<lparr>rect_top = 300, rect_left = 10, rect_width = 50, rect_height = 30\<rparr>"
    by (simp add: example_shown) (simp add: example_page_def)
  from reshow_keeps_glow [OF c, of 2 "''PURPLE''"] c g b show ?thesis
    by simp
qed

text \<open>
  C3. When a \<^verbatim>\<open>showCircle\<close> of a run has created the indicator, it has appended a
  resize and a scroll listener to the listener list of the window. Whatever happens
  next, \<^verbatim>\<open>destroyCircle\<close> removes none of the listeners: the two function objects it
  creates for \<^verbatim>\<open>removeEventListener\<close> are new (numbered from the allocation counter
  on, above every registered listener), so the list after the call is the list before
  it, and the two listeners of the creation are still in it.
\<close>

theorem destroy_leaks_listeners:
  assumes "init s0" and "s = run xs s0" and "circle s = None"
    and "s' = run ys (showCircle t c s)"
  shows "listeners (showCircle t c s) =
           listeners s @ [(''resize'', fresh s + 3, Recompute t), (''scroll'', fresh s + 4, Recompute t)] \<and>
         (\<forall>l \<in> set (listeners s'). fst (snd l) < fresh s') \<and>
         fresh (destroyCircle s') = fresh s' + 2 \<and>
         listeners (destroyCircle s') = listeners s' \<and>
         (''resize'', fresh s + 3, Recompute t) \<in> set (listeners (destroyCircle s')) \<and>
         (''scroll'', fresh s + 4, Recompute t) \<in> set (listeners (destroyCircle s'))"
proof -
  have i: "run_inv s0 s"
    using assms by (simp add: init_run)
  then have n: "styleSheet s = None" and w: "well_formed s"
    using assms(3) by (simp_all add: run_inv_def)
  note l1 = showCircle_create(6) [OF assms(3) n w, of t c]
  have i1: "run_inv s0 (showCircle t c s)"
    using i by (rule inv_showCircle)
  have i': "run_inv s0 s'"
    unfolding assms(4) using i1 by (rule inv_run)
  have w': "well_formed s'"
    using i' by (rule inv_wf)
  obtain zs where zs: "listeners s' = listeners (showCircle t c s) @ zs"
    unfolding assms(4) using run_listeners_grow [OF i1] by blast
  have d: "listeners (destroyCircle s') = listeners s'"
    using w' by (rule destroyCircle_listeners)
  have "\<forall>l \<in> set (listeners s'). fst (snd l) < fresh s'"
    using w' by (simp add: well_formed_def)
  then show ?thesis
    by (simp add: l1 d zs)
qed

theorem destroy_leaks_listeners_witness:
  "init example_page \<and> circle (run [] example_page) = None \<and>
   listeners (showCircle 1 None (run [] example_page)) =
     [(''resize'', 6, Recompute 1), (''scroll'', 7, Recompute 1)] \<and>
   listeners (destroyCircle (run [Hide] (showCircle 1 None (run [] example_page)))) =
     [(''resize'', 6, Recompute 1), (''scroll'', 7, Recompute 1)]"
proof -
  have c: "circle (run [] example_page) = None"
    by (simp add: example_page_def)
  from destroy_leaks_listeners [OF example_init refl c refl, where ys = "[Hide]" and t = 1 and c = None]
    example_shown(6) [of 1 None] c example_init
  show ?thesis by simp
qed

text \<open>
  C4. A colour that is neither \<^verbatim>\<open>"PURPLE"\<close> nor \<^verbatim>\<open>"GRAY"\<close>, and an omitted colour,
  give the state that \<^verbatim>\<open>"BLUE"\<close> gives, whether the call creates the indicator or
  finds it (the state \<open>s\<close> is arbitrary), and the background of the indicator is then the
  blue gradient.
\<close>

theorem unknown_variant_is_blue:
  assumes "v \<noteq> ''PURPLE''" and "v \<noteq> ''GRAY''"
  shows "showCircle t (Some v) s = showCircle t (Some ''BLUE'') s \<and>
         showCircle t None s = showCircle t (Some ''BLUE'') s \<and>
         circle_style (showCircle t (Some v) s) Background =
           Some (Str ''radial-gradient(circle, #5f9eff, #003f9f)'')"
proof -
  have e: "createCircleElement (Some v) s' = createCircleElement (Some ''BLUE'') s'" for s' :: "'a state"
    using assms by (simp add: createCircleElement_def Let_def)
  have g: "createGlowingMovingCircle t (Some v) s = createGlowingMovingCircle t (Some ''BLUE'') s"
    by (simp only: createGlowingMovingCircle_def Let_def option.case e)
  have one: "showCircle t (Some v) s = showCircle t (Some ''BLUE'') s"
    using assms by (simp add: showCircle_def Let_def g split: option.splits)
  have two: "showCircle t None s = showCircle t (Some ''BLUE'') s"
    by (simp add: showCircle_def)
  have three: "circle_style (showCircle t (Some v) s) Background =
           Some (Str ''radial-gradient(circle, #5f9eff, #003f9f)'')"
  proof (cases "circle s")
    case None
    from circle_style_create(5) [OF None, of t v] assms show ?thesis by simp
  next
    case (Some r)
    with assms show ?thesis
      by (simp add: circle_style_def showCircle_existing(1) showCircle_existing_style)
  qed
  from one two three show ?thesis by simp
qed

theorem unknown_variant_is_blue_witness:
  "''unknown'' \<noteq> ''PURPLE'' \<and> ''unknown'' \<noteq> ''GRAY'' \<and>
   showCircle 1 (Some ''unknown'') example_page = showCircle 1 (Some ''BLUE'') example_page \<and>
   showCircle 1 (Some ''unknown'') (showCircle 2 (Some ''GRAY'') example_page) =
     showCircle 1 (Some ''BLUE'') (showCircle 2 (Some ''GRAY'') example_page) \<and>
   circle_style (showCircle 1 (Some ''unknown'') example_page) Background =
     Some (Str ''radial-gradient(circle, #5f9eff, #003f9f)'') \<and>
   circle_style (showCircle 1 (Some ''unknown'') (showCircle 2 (Some ''GRAY'') example_page))
     Background = Some (Str ''radial-gradient(circle, #5f9eff, #003f9f)'')"
proof -
  have n: "''unknown'' \<noteq> ''PURPLE''" "''unknown'' \<noteq> ''GRAY''"
    by simp_all
  from n unknown_variant_is_blue [OF n, of 1 example_page]
    unknown_variant_is_blue [OF n, of 1 "showCircle 2 (Some ''GRAY'') example_page"]
  show ?thesis by blast
qed

text \<open>
  C5. Position recomputation is to put the centre of the indicator on the centre of the
  bounding box of the target. \<^verbatim>\<open>updateCirclePosition\<close> does write
  \<open>top + height / 2\<close> and \<open>left + width / 2\<close> of that box to \<^verbatim>\<open>top\<close> and
  \<^verbatim>\<open>left\<close> (\<open>updateCirclePosition_centre\<close>), but the box is in viewport coordinates
  and the indicator is positioned \<^verbatim>\<open>absolute\<close>, from the origin of the page: the
  indicator is drawn off the target by the scroll offset of the page
  (\<open>rendered_centre_update\<close>). On the example page, target \<open>1\<close> has its centre at
  \<open>(110, 80)\<close> in the viewport. With the page not scrolled the indicator is drawn there;
  with the page scrolled down by 200 pixels it is drawn at \<open>(-90, 80)\<close>, above the
  viewport, after the creating \<^verbatim>\<open>showCircle\<close> and after a recomputation alike.
\<close>

theorem scrolled_page_misses_centre:
  "position (showCircle 1 None example_page) = Some (Px 110, Px 80) \<and>
   box_centre (bounds (showCircle 1 None example_page) 1) = (110, 80) \<and>
   rendered_centre \<lparr>scrollX = 0, scrollY = 0\<rparr> (showCircle 1 None example_page) = Some (110, 80) \<and>
   rendered_centre \<lparr>scrollX = 0, scrollY = 200\<rparr> (showCircle 1 None example_page) = Some (- 90, 80) \<and>
   rendered_centre \<lparr>scrollX = 0, scrollY = 200\<rparr>
     (updateCirclePosition 1 (showCircle 1 None example_page)) = Some (- 90, 80) \<and>
   rendered_centre \<lparr>scrollX = 0, scrollY = 200\<rparr>
     (updateCirclePosition 1 (showCircle 1 None example_page)) \<noteq>
   Some (box_centre (bounds (showCircle 1 None example_page) 1))"
proof -
  let ?s = "showCircle 1 None example_page"
  have b: "bounds ?s 1 = \<lparr>rect_top = 100, rect_left = 40, rect_width = 80, rect_height = 20\<rparr>"
    by (simp add: showCircle_bounds) (simp add: example_page_def)
  have c: "circle ?s = Some 4" and d: "body ?s = [1, 2, 4]"
    by (simp_all add: example_shown)
  have st: "style (elems ?s 4) Display = Str ''flex''"
    "style (elems ?s 4) Transform = Str ''translate(-50%, -50%)''"
    "style (elems ?s 4) Position = Str ''absolute''"
    "style (elems ?s 4) Top = Px 110" "style (elems ?s 4) Left_prop = Px 80"
    using example_shown_style [of 1 None] by (simp_all add: example_page_def)
  have u: "circle (updateCirclePosition 1 ?s) = Some 4" "body (updateCirclePosition 1 ?s) = [1, 2, 4]"
    "style (elems (updateCirclePosition 1 ?s) 4) Display = Str ''flex''"
    "style (elems (updateCirclePosition 1 ?s) 4) Transform = Str ''translate(-50%, -50%)''"
    "style (elems (updateCirclePosition 1 ?s) 4) Position = Str ''absolute''"
    "style (elems (updateCirclePosition 1 ?s) 4) Top = Px 110"
    "style (elems (updateCirclePosition 1 ?s) 4) Left_prop = Px 80"
    using c d st b by (simp_all add: updateCirclePosition_style)
  show ?thesis
    using b c d st u
    by (simp add: position_def box_centre_def rendered_centre_def)
qed

text \<open>
  C6. After \<^verbatim>\<open>destroyCircle\<close>, in any run, both variables are \<^verbatim>\<open>null\<close> and the
  body and the head hold what the page held at the start, so neither the indicator nor
  the style element is in the document. A \<^verbatim>\<open>showCircle\<close> that follows initializes in
  full. It creates five new objects (none of them is an old handle). The style element
  has type \<^verbatim>\<open>text/css\<close> and the keyframes text and is the last child of the head.
  The indicator carries the thirteen style values of \<^verbatim>\<open>createCircleElement\<close> with
  the gradient and the glow of the colour of this call, stands on the centre of the
  target of this call, has the glyph element (white, 24 pixels, the star) as its only
  child, and is the last child of the body. The two listeners are registered.
\<close>

theorem destroy_then_show:
  assumes "init s0" and "s = run xs s0"
    and "d = destroyCircle s" and "s' = showCircle t c d"
    and "col = (case c of None \<Rightarrow> ''BLUE'' | Some v \<Rightarrow> v)"
  shows "circle d = None \<and> styleSheet d = None \<and>
         body d = body s0 \<and> head d = head s0 \<and>
         (\<forall>r. circle s = Some r \<longrightarrow> r \<notin> set (body d) \<and> r < fresh d) \<and>
         (\<forall>e. styleSheet s = Some e \<longrightarrow> e \<notin> set (head d) \<and> e < fresh d) \<and>
         styleSheet s' = Some (fresh d) \<and>
         circle s' = Some (Suc (fresh d)) \<and>
         head s' = head s0 @ [fresh d] \<and>
         body s' = body s0 @ [Suc (fresh d)] \<and>
         fresh s' = fresh d + 5 \<and>
         listeners s' =
           listeners d @
           [(''resize'', fresh d + 3, Recompute t), (''scroll'', fresh d + 4, Recompute t)] \<and>
         tag (elems s' (fresh d)) = ''style'' \<and>
         type_attr (elems s' (fresh d)) = ''text/css'' \<and>
         innerHTML (elems s' (fresh d)) = glow_keyframes \<and>
         tag (elems s' (Suc (fresh d))) = ''div'' \<and>
         map (style (elems s' (Suc (fresh d))))
           [Width, Height, Background, BorderRadius, Position, Transform, Display, AlignItems,
            JustifyContent, BoxShadow, Animation, PointerEvents, ZIndex] =
           [Str ''60px'', Str ''60px'',
            Str (if col = ''PURPLE'' then ''radial-gradient(circle, #9c27b0, #6a0080)''
                 else if col = ''GRAY'' then ''radial-gradient(circle, #c0c0c0, #808080)''
                 else ''radial-gradient(circle, #5f9eff, #003f9f)''),
            Str ''50%'', Str ''absolute'', Str ''translate(-50%, -50%)'', Str ''flex'',
            Str ''center'', Str ''center'',
            Str (if col = ''PURPLE''
                 then ''0 0 15px 5px rgba(156, 39, 176, 0.6), 0 0 30px 15px rgba(106, 0, 128, 0.3)''
                 else if col = ''GRAY''
                 then ''0 0 15px 5px rgba(192,192,192,0.5), 0 0 30px 15px rgba(128,128,128,0.3)''
                 else ''0 0 15px 5px rgba(0, 63, 159, 0.5), 0 0 30px 15px rgba(0, 63, 159, 0.3)''),
            Str ''glow-right 2s infinite'', Str ''none'', Str ''9999''] \<and>
         style (elems s' (Suc (fresh d))) Top =
           Px (rect_top (bounds d t) + rect_height (bounds d t) / 2) \<and>
         style (elems s' (Suc (fresh d))) Left_prop =
           Px (rect_left (bounds d t) + rect_width (bounds d t) / 2) \<and>
         children (elems s' (Suc (fresh d))) = [fresh d + 2] \<and>
         tag (elems s' (fresh d + 2)) = ''div'' \<and>
         innerHTML (elems s' (fresh d + 2)) = [CHR 0xE2, CHR 0x9C, CHR 0xA6] \<and>
         style (elems s' (fresh d + 2)) FontSize = Str ''24px'' \<and>
         style (elems s' (fresh d + 2)) Color = Str ''white''"
proof -
  have i: "run_inv s0 s"
    using assms(1,2) by (simp add: init_run)
  have di: "run_inv s0 d"
    unfolding assms(3) using i by (rule inv_destroyCircle)
  have n: "circle d = None" "styleSheet d = None"
    by (simp_all add: assms(3))
  have b: "body d = body s0" and h: "head d = head s0"
    using di n by (simp_all add: run_inv_def handle_def)
  have old: "\<forall>r. circle s = Some r \<longrightarrow> r \<notin> set (body s0) \<and> r < fresh d"
    "\<forall>e. styleSheet s = Some e \<longrightarrow> e \<notin> set (head s0) \<and> e < fresh d"
    using i by (auto simp: assms(3) run_inv_def dest: inv_handles_allocated [OF i])
  note handles = showCircle_create [OF n inv_wf [OF di], of t c, folded assms(4)]
  note made = showCircle_create_elements [OF n, of t c, folded assms(4)]
  note styled = showCircle_create_styles [OF n assms(5), of t, folded assms(4)]
  have two: "fresh d + 2 = Suc (Suc (fresh d))"
    by simp
  from n b h old handles made styled show ?thesis
    unfolding two by simp
qed

theorem destroy_then_show_witness:
  "init example_page \<and>
   circle (run [Show 1 None] example_page) = Some 4 \<and>
   styleSheet (run [Show 1 None] example_page) = Some 3 \<and>
   circle (run [Show 1 None, Destroy] example_page) = None \<and>
   styleSheet (run [Show 1 None, Destroy] example_page) = None \<and>
   body (run [Show 1 None, Destroy] example_page) = [1, 2] \<and>
   head (run [Show 1 None, Destroy] example_page) = [0] \<and>
   styleSheet (run [Show 1 None, Destroy, Show 2 None] example_page) = Some 10 \<and>
   circle (run [Show 1 None, Destroy, Show 2 None] example_page) = Some 11 \<and>
   head (run [Show 1 None, Destroy, Show 2 None] example_page) = [0, 10] \<and>
   body (run [Show 1 None, Destroy, Show 2 None] example_page) = [1, 2, 11] \<and>
   innerHTML (elems (run [Show 1 None, Destroy, Show 2 None] example_page) 10) = glow_keyframes \<and>
   style (elems (run [Show 1 None, Destroy, Show 2 None] example_page) 11) Background =
     Str ''radial-gradient(circle, #5f9eff, #003f9f)'' \<and>
   style (elems (run [Show 1 None, Destroy, Show 2 None] example_page) 11) BoxShadow =
     Str ''0 0 15px 5px rgba(0, 63, 159, 0.5), 0 0 30px 15px rgba(0, 63, 159, 0.3)'' \<and>
   style (elems (run [Show 1 None, Destroy, Show 2 None] example_page) 11) Top = Px 315 \<and>
   style (elems (run [Show 1 None, Destroy, Show 2 None] example_page) 11) Left_prop = Px 35 \<and>
   children (elems (run [Show 1 None, Destroy, Show 2 None] example_page) 11) = [12] \<and>
   innerHTML (elems (run [Show 1 None, Destroy, Show 2 None] example_page) 12) =
     [CHR 0xE2, CHR 0x9C, CHR 0xA6]"
proof -
  have e: "body example_page = [1, 2]" "head example_page = [0]"
    by (simp_all add: example_page_def)
  have r: "bounds (destroyCircle (run [Show 1 None] example_page)) 2 =
             \<lparr>rect_top = 300, rect_left = 10, rect_width = 50, rect_height = 30\<rparr>"
    by (simp add: showCircle_bounds) (simp add: example_page_def)
  from destroy_then_show [OF example_init refl refl refl refl,
      where xs = "[Show 1 None]" and t = 2 and c = None]
    example_shown(1,2,3) [of 1 None] example_init e r
  show ?thesis by simp
qed

text \<open>
  C7. From any state of a run, \<^verbatim>\<open>showCircle(t)\<close>, \<^verbatim>\<open>hideCircle()\<close>,
  \<^verbatim>\<open>showCircle(t)\<close> leaves one indicator element in the body, displayed: after the
  hide the element is still the last child of the body with display \<^verbatim>\<open>none\<close>, and
  the second show sets display \<^verbatim>\<open>flex\<close> on the same element and creates no object.
\<close>

theorem show_hide_show:
  assumes "init s0" and "s = run xs s0"
  shows "\<exists>r. r \<notin> set (body s0) \<and>
           circle (showCircle t c s) = Some r \<and>
           circle (hideCircle (showCircle t c s)) = Some r \<and>
           body (hideCircle (showCircle t c s)) = body s0 @ [r] \<and>
           style (elems (hideCircle (showCircle t c s)) r) Display = Str ''none'' \<and>
           circle (showCircle t' c' (hideCircle (showCircle t c s))) = Some r \<and>
           body (showCircle t' c' (hideCircle (showCircle t c s))) = body s0 @ [r] \<and>
           style (elems (showCircle t' c' (hideCircle (showCircle t c s))) r) Display = Str ''flex'' \<and>
           fresh (showCircle t' c' (hideCircle (showCircle t c s))) = fresh (showCircle t c s)"
proof -
  have i: "run_inv s0 s"
    using assms by (simp add: init_run)
  have i1: "run_inv s0 (showCircle t c s)"
    using i by (rule inv_showCircle)
  obtain r where r: "circle (showCircle t c s) = Some r"
    using showCircle_present [OF i] by blast
  have nb: "r \<notin> set (body s0)" and b1: "body (showCircle t c s) = body s0 @ [r]"
    using i1 r by (simp_all add: run_inv_def handle_def)
  have h: "circle (hideCircle (showCircle t c s)) = Some r"
    using r by simp
  have "style (elems (hideCircle (showCircle t c s)) r) Display = Str ''none''"
    using r by (simp add: hideCircle_style)
  moreover have "style (elems (showCircle t' c' (hideCircle (showCircle t c s))) r) Display = Str ''flex''"
    by (simp add: showCircle_existing_style [OF h])
  ultimately show ?thesis
    using nb r b1 by (simp add: showCircle_existing [OF h])
qed

theorem show_hide_show_witness:
  "init example_page \<and>
   circle (run [Show 1 None, Hide] example_page) = Some 4 \<and>
   body (run [Show 1 None, Hide] example_page) = [1, 2, 4] \<and>
   style (elems (run [Show 1 None, Hide] example_page) 4) Display = Str ''none'' \<and>
   circle (run [Show 1 None, Hide, Show 1 None] example_page) = Some 4 \<and>
   body (run [Show 1 None, Hide, Show 1 None] example_page) = [1, 2, 4] \<and>
   style (elems (run [Show 1 None, Hide, Show 1 None] example_page) 4) Display = Str ''flex'' \<and>
   fresh (run [Show 1 None, Hide, Show 1 None] example_page) = 8"
proof -
  have e: "body example_page = [1, 2]" "run [] example_page = example_page"
    by (simp_all add: example_page_def)
  from show_hide_show [OF example_init e(2) [symmetric], of 1 None 1 None]
    example_shown(1,3) [of 1 None] example_init e(1)
  show ?thesis by auto
qed

text \<open>
  C8. In a run, when the handle is absent, \<^verbatim>\<open>hideCircle\<close> returns the state as it is
  and \<^verbatim>\<open>destroyCircle\<close> changes nothing but the allocation counter (it creates the two
  function objects it passes to \<^verbatim>\<open>removeEventListener\<close>): variables, document,
  listeners and elements stay. The three operations are functions of the state with no
  error value, defined on the absent state too: there \<^verbatim>\<open>showCircle\<close> yields a handle.
\<close>

theorem absent_noop:
  assumes "init s0" and "s = run xs s0" and "circle s = None"
  shows "hideCircle s = s \<and> destroyCircle s = s\<lparr>fresh := fresh s + 2\<rparr> \<and>
         (\<exists>r. circle (showCircle t c s) = Some r)"
proof -
  have i: "run_inv s0 s"
    using assms by (simp add: init_run)
  then have "styleSheet s = None" and "well_formed s"
    using assms(3) by (simp_all add: run_inv_def)
  with assms(3) have "destroyCircle s = s\<lparr>fresh := fresh s + 2\<rparr>"
    by (simp add: destroyCircle_absent)
  moreover have "hideCircle s = s"
    using assms(3) by (simp add: hideCircle_def)
  ultimately show ?thesis
    using showCircle_present [OF i] by simp
qed

theorem absent_noop_witness:
  "init example_page \<and> circle (run [Show 1 None, Destroy] example_page) = None \<and>
   hideCircle (run [Show 1 None, Destroy] example_page) = run [Show 1 None, Destroy] example_page \<and>
   circle (destroyCircle (run [Show 1 None, Destroy] example_page)) = None \<and>
   styleSheet (destroyCircle (run [Show 1 None, Destroy] example_page)) = None \<and>
   body (destroyCircle (run [Show 1 None, Destroy] example_page)) = [1, 2] \<and>
   head (destroyCircle (run [Show 1 None, Destroy] example_page)) = [0] \<and>
   listeners (destroyCircle (run [Show 1 None, Destroy] example_page)) =
     listeners (run [Show 1 None, Destroy] example_page)"
proof -
  have c: "circle (run [Show 1 None, Destroy] example_page) = None"
    by simp
  have b: "body (run [Show 1 None, Destroy] example_page) = [1, 2]"
    "head (run [Show 1 None, Destroy] example_page) = [0]"
    by (simp_all add: example_destroyed)
  from absent_noop [OF example_init refl c, of 1 None] c b example_init
  show ?thesis by simp
qed

text \<open>
  C9. In every run the head of the document is what the page held at the start followed
  by the style element, if the registration is present: there is never a second one.
  The registration is absent until a \<^verbatim>\<open>showCircle\<close> initializes (no other step creates
  it), which creates it as a new element; while it is present,
  \<^verbatim>\<open>addGlowAnimationStyles\<close> returns the state as it is, and every step other than
  \<^verbatim>\<open>destroyCircle\<close> keeps the same element, unchanged, in the head;
  \<^verbatim>\<open>destroyCircle\<close> makes it absent.
\<close>

theorem style_registration_once:
  assumes "init s0" and "s = run xs s0"
  shows "head s = head s0 @ handle (styleSheet s) \<and>
         (styleSheet s = None \<longrightarrow>
            styleSheet (showCircle t c s) = Some (fresh s) \<and>
            head (showCircle t c s) = head s0 @ [fresh s] \<and>
            (\<forall>x. (\<forall>t' c'. x \<noteq> Show t' c') \<longrightarrow> styleSheet (step x s) = None)) \<and>
         (\<forall>e. styleSheet s = Some e \<longrightarrow>
            e \<notin> set (head s0) \<and> addGlowAnimationStyles s = s \<and>
            (\<forall>x. x \<noteq> Destroy \<longrightarrow>
               styleSheet (step x s) = Some e \<and> head (step x s) = head s \<and>
               elems (step x s) e = elems s e)) \<and>
         styleSheet (destroyCircle s) = None"
proof -
  have i: "run_inv s0 s"
    using assms by (simp add: init_run)
  have one: "head s = head s0 @ handle (styleSheet s)"
    using i by (simp add: run_inv_def)
  have two: "styleSheet (showCircle t c s) = Some (fresh s) \<and>
             head (showCircle t c s) = head s0 @ [fresh s] \<and>
             (\<forall>x. (\<forall>t' c'. x \<noteq> Show t' c') \<longrightarrow> styleSheet (step x s) = None)"
    if n: "styleSheet s = None"
  proof -
    from i n have c: "circle s = None" and w: "well_formed s" and h: "head s = head s0"
      by (simp_all add: run_inv_def handle_def)
    from showCircle_create(2,5) [OF c n w, of t c] h step_keeps_no_styleSheet [OF n]
    show ?thesis by simp
  qed
  have three: "e \<notin> set (head s0) \<and> addGlowAnimationStyles s = s \<and>
            (\<forall>x. x \<noteq> Destroy \<longrightarrow>
               styleSheet (step x s) = Some e \<and> head (step x s) = head s \<and>
               elems (step x s) e = elems s e)"
    if e: "styleSheet s = Some e" for e
    using i e step_keeps_styleSheet [OF i e]
    by (simp add: run_inv_def addGlowAnimationStyles_present)
  from one two three show ?thesis by simp
qed

theorem style_registration_once_witness:
  "init example_page \<and>
   styleSheet (run [] example_page) = None \<and>
   styleSheet (step Hide (run [] example_page)) = None \<and>
   styleSheet (showCircle 1 None (run [] example_page)) = Some 3 \<and>
   head (showCircle 1 None (run [] example_page)) = [0, 3] \<and>
   styleSheet (run [Show 1 None] example_page) = Some 3 \<and>
   3 \<notin> set (head example_page) \<and> Show 2 None \<noteq> Destroy \<and>
   addGlowAnimationStyles (run [Show 1 None] example_page) = run [Show 1 None] example_page \<and>
   styleSheet (step (Show 2 None) (run [Show 1 None] example_page)) = Some 3 \<and>
   head (step (Show 2 None) (run [Show 1 None] example_page)) = [0, 3] \<and>
   styleSheet (destroyCircle (run [Show 1 None] example_page)) = None"
proof -
  let ?s1 = "run [Show 1 None] example_page"
  have e: "head example_page = [0]" "fresh example_page = 3" "styleSheet example_page = None"
    "run [] example_page = example_page"
    by (simp_all add: example_page_def)
  have n: "\<forall>t' c'. (Hide :: real op) \<noteq> Show t' c'" "(Show 2 None :: real op) \<noteq> Destroy"
    by simp_all
  note A = style_registration_once [OF example_init refl, of "[]" 1 None]
  note B = style_registration_once [OF example_init refl, of "[Show 1 None]" 1 None]
  have s1: "styleSheet ?s1 = Some 3" "head ?s1 = [0, 3]"
    by (simp_all add: example_shown)
  have s0: "styleSheet (run [] example_page) = None"
    by (simp add: e)
  from A s0 n(1) have a: "styleSheet (step Hide (run [] example_page)) = None"
    by blast
  from B s1(1) n(2) have b: "addGlowAnimationStyles ?s1 = ?s1"
    "styleSheet (step (Show 2 None) ?s1) = Some 3"
    "head (step (Show 2 None) ?s1) = head ?s1"
    by blast+
  from a b s1 example_shown(2,5) [of 1 None] example_init e
  show ?thesis by simp
qed

text \<open>
  C10. Let a \<^verbatim>\<open>showCircle(t1)\<close> of a run create the indicator, and let the handle
  exist from then on (no \<^verbatim>\<open>destroyCircle\<close>). A later \<^verbatim>\<open>showCircle(t2)\<close> puts the
  indicator on the centre of \<open>t2\<close>; but a resize or scroll event, then or at any later
  time, puts it on the centre of \<open>t1\<close>, the target of the creating call, as the layout
  has it at that time.
\<close>

theorem listeners_keep_first_target:
  assumes "init s0" and "s = run xs s0" and "circle s = None"
    and "Destroy \<notin> set ys" and "s1 = run ys (showCircle t1 c s)"
    and "s2 = showCircle t2 c2 s1"
    and "Destroy \<notin> set zs" and "s3 = run zs s2"
    and "ev = ''resize'' \<or> ev = ''scroll''"
  shows "position s2 = Some (centre (bounds s1 t2)) \<and>
         position (fire ev s2) = Some (centre (bounds s1 t1)) \<and>
         position (fire ev s3) = Some (centre (bounds s3 t1))"
proof -
  have i: "run_inv s0 s"
    using assms by (simp add: init_run)
  then have n: "styleSheet s = None" and w: "well_formed s"
    using assms(3) by (simp_all add: run_inv_def)
  note cr = showCircle_create(1,6) [OF assms(3) n w, of t1 c]
  have k1: "circle s1 = Some (Suc (fresh s))" "listeners s1 = listeners (showCircle t1 c s)"
    unfolding assms(5) using run_keeps_handle [OF cr(1) assms(4)] by simp_all
  have k2: "circle s2 = Some (Suc (fresh s))" "listeners s2 = listeners (showCircle t1 c s)"
    "bounds s2 = bounds s1"
    unfolding assms(6) using k1 by (simp_all add: showCircle_existing)
  have k3: "circle s3 = Some (Suc (fresh s))" "listeners s3 = listeners (showCircle t1 c s)"
    unfolding assms(8) using run_keeps_handle [OF k2(1) assms(7)] k2(2) by simp_all
  have "position s2 = Some (centre (bounds s1 t2))"
    unfolding assms(6) by (rule position_show)
  moreover have "position (fire ev s2) = Some (centre (bounds s2 t1))"
    using k2(1) _ assms(9) by (rule position_fire) (simp add: k2(2) cr(2))
  moreover have "position (fire ev s3) = Some (centre (bounds s3 t1))"
    using k3(1) _ assms(9) by (rule position_fire) (simp add: k3(2) cr(2))
  ultimately show ?thesis
    by (simp add: k2(3))
qed

theorem listeners_keep_first_target_witness:
  "init example_page \<and> circle (run [] example_page) = None \<and>
   Destroy \<notin> set ([] :: real op list) \<and> Destroy \<notin> set [Hide :: real op] \<and>
   position (showCircle 2 None (run [] (showCircle 1 None (run [] example_page)))) =
     Some (Px 315, Px 35) \<and>
   position (fire ''resize'' (showCircle 2 None (run [] (showCircle 1 None (run [] example_page))))) =
     Some (Px 110, Px 80) \<and>
   position (fire ''scroll''
      (run [Hide] (showCircle 2 None (run [] (showCircle 1 None (run [] example_page)))))) =
     Some (Px 110, Px 80)"
proof -
  have c: "circle (run [] example_page) = None"
    by (simp add: example_page_def)
  have d: "Destroy \<notin> set ([] :: real op list)" "Destroy \<notin> set [Hide :: real op]"
    by simp_all
  have b: "centre (bounds example_page 1) = (Px 110, Px 80)"
    "centre (bounds example_page 2) = (Px 315, Px 35)"
    by (simp_all add: centre_def example_page_def)
  from listeners_keep_first_target [OF example_init refl c d(1) refl refl d(2) refl,
      where ev = "''resize''" and ?t2.0 = 2 and ?c2.0 = None and ?t1.0 = 1 and c = None]
    listeners_keep_first_target [OF example_init refl c d(1) refl refl d(2) refl,
      where ev = "''scroll''" and ?t2.0 = 2 and ?c2.0 = None and ?t1.0 = 1 and c = None]
    c d b example_init
  show ?thesis by (simp add: showCircle_bounds)
qed

end
